theory Spec2Isabelle
  imports Complex_Main "HOL-Library.Multiset" "HOL-Library.Product_Lexorder"
begin

section \<open>Data model of the topology assembly engine\<close>

text \<open>
  The development embeds \<^verbatim>\<open>classes/topology/base.py\<close>: the classes \<^verbatim>\<open>Vertex\<close>,
  \<^verbatim>\<open>Edge\<close> and \<^verbatim>\<open>Topology\<close>. Python object references to vertices and edges are
  site identifiers into a store of sites; atom indices of the rdkit molecule are natural
  numbers; rdkit molecules are reduced to what the engine reads and writes: the atomic
  number of every atom, by index, and the list of bonds. Floating point numbers are
  idealised as real numbers.
\<close>

type_synonym atom_id = nat
type_synonym site_id = nat
type_synonym vec3 = "real \<times> real \<times> real"

datatype error =
    StopIteration
  | TypeError
  | ValueError
  | IndexError
  | RangeError
  | ZeroDivisionError
  | MissingFunctionalGroupError

datatype bond_type = SINGLE | DOUBLE

text \<open>
  \<^verbatim>\<open>FGInfo\<close> is imported by the module and not defined in it. Its three class
  attributes that the engine reads are the fields of a registry value that every
  operation takes as an argument.
\<close>

record fg_info =
  heavy_atomic_num :: nat
  heavy_symbol :: string
  target_atomic_num :: nat

record fg_registry =
  functional_group_list :: "fg_info list"
  double_bond_combs :: "(string \<times> string) list"
  heavy_atomic_nums :: "nat set"

record mol =
  atoms :: "nat list"
  bonds :: "(atom_id \<times> atom_id \<times> bond_type) list"

section \<open>The bond order rule\<close>

text \<open>\<^verbatim>\<open>mol.GetAtomWithIdx(i).GetAtomicNum()\<close>; rdkit rejects an index out of range.\<close>

definition GetAtomicNum :: "mol \<Rightarrow> atom_id \<Rightarrow> error + nat" where
  "GetAtomicNum m i = (if i < length (atoms m) then Inr (atoms m ! i) else Inl RangeError)"

text \<open>
  \<^verbatim>\<open>next(x.heavy_symbol for x in FGInfo.functional_group_list if n == x.heavy_atomic_num)\<close>:
  the first entry with the atomic number, and \<^verbatim>\<open>StopIteration\<close> when the generator is
  exhausted, since \<^verbatim>\<open>next\<close> is given no default.
\<close>

fun next_heavy_symbol :: "fg_info list \<Rightarrow> nat \<Rightarrow> error + string" where
  "next_heavy_symbol [] n = Inl StopIteration"
| "next_heavy_symbol (x # xs) n =
     (if n = heavy_atomic_num x then Inr (heavy_symbol x) else next_heavy_symbol xs n)"

definition double_bond_present :: "(string \<times> string) list \<Rightarrow> string \<Rightarrow> string \<Rightarrow> bool list" where
  "double_bond_present combs s1 s2 = map (\<lambda>tup. (s1, s2) = tup \<or> (s2, s1) = tup) combs"

definition determine_bond_type :: "fg_registry \<Rightarrow> mol \<Rightarrow> atom_id \<Rightarrow> atom_id \<Rightarrow> error + bond_type" where
  "determine_bond_type reg m atom1_id atom2_id =
     (case GetAtomicNum m atom1_id of Inl e \<Rightarrow> Inl e | Inr atom1_atomic_n \<Rightarrow>
      case GetAtomicNum m atom2_id of Inl e \<Rightarrow> Inl e | Inr atom2_atomic_n \<Rightarrow>
      case next_heavy_symbol (functional_group_list reg) atom1_atomic_n of Inl e \<Rightarrow> Inl e
      | Inr atom1_symbol \<Rightarrow>
      case next_heavy_symbol (functional_group_list reg) atom2_atomic_n of Inl e \<Rightarrow> Inl e
      | Inr atom2_symbol \<Rightarrow>
        if True \<in> set (double_bond_present (double_bond_combs reg) atom1_symbol atom2_symbol)
        then Inr DOUBLE else Inr SINGLE)"

text \<open>An atomic number is registered when some entry of the registry carries it.\<close>

definition registered :: "fg_registry \<Rightarrow> nat \<Rightarrow> bool" where
  "registered reg n = (\<exists>x \<in> set (functional_group_list reg). heavy_atomic_num x = n)"

text \<open>A small registry and molecule, used to exercise the definitions.\<close>

definition reg0 :: fg_registry where
  "reg0 = \<lparr>functional_group_list =
             [\<lparr>heavy_atomic_num = 39, heavy_symbol = ''Y'', target_atomic_num = 6\<rparr>,
              \<lparr>heavy_atomic_num = 45, heavy_symbol = ''Rh'', target_atomic_num = 7\<rparr>],
           double_bond_combs = [(''Rh'', ''Y'')],
           heavy_atomic_nums = {39, 45}\<rparr>"

definition mol0 :: mol where
  "mol0 = \<lparr>atoms = [39, 45, 6, 41], bonds = []\<rparr>"

section \<open>Geometry primitives\<close>

fun vsub :: "vec3 \<Rightarrow> vec3 \<Rightarrow> vec3" where
  "vsub (a, b, c) (x, y, z) = (a - x, b - y, c - z)"

fun smult :: "real \<Rightarrow> vec3 \<Rightarrow> vec3" where
  "smult k (x, y, z) = (k * x, k * y, k * z)"

fun vadd :: "vec3 \<Rightarrow> vec3 \<Rightarrow> vec3" where
  "vadd (a, b, c) (x, y, z) = (a + x, b + y, c + z)"

fun dot :: "vec3 \<Rightarrow> vec3 \<Rightarrow> real" where
  "dot (a, b, c) (x, y, z) = a * x + b * y + c * z"

text \<open>\<^verbatim>\<open>np.cross\<close> and the Euclidean norm.\<close>

fun cross :: "vec3 \<Rightarrow> vec3 \<Rightarrow> vec3" where
  "cross (a, b, c) (x, y, z) = (b * z - c * y, c * x - a * z, a * y - b * x)"

definition vnorm :: "vec3 \<Rightarrow> real" where
  "vnorm v = sqrt (dot v v)"

text \<open>\<^verbatim>\<open>scipy.spatial.distance.euclidean\<close>.\<close>

definition euclidean :: "vec3 \<Rightarrow> vec3 \<Rightarrow> real" where
  "euclidean u v = vnorm (vsub u v)"

text \<open>
  Modelled from the spec: \<^verbatim>\<open>normalize_vector\<close> is imported from
  \<^verbatim>\<open>convenience_tools\<close>, which is not among the sources. The spec: "normalize(v: Vec3)
  -> Vec3: fails with DivideByZero when |v| == 0".
\<close>

definition normalize_vector :: "vec3 \<Rightarrow> error + vec3" where
  "normalize_vector v =
     (if vnorm v = 0 then Inl ZeroDivisionError else Inr (smult (1 / vnorm v) v))"

text \<open>
  Modelled from the spec: \<^verbatim>\<open>vector_theta\<close> is imported from \<^verbatim>\<open>convenience_tools\<close>
  as well. The spec: "angle(u, v) -> float: returns the unsigned angle in [0, pi] between
  two vectors via acos(dot(u,v)/(|u||v|))", with no failure named: the function is total.
  Where one of the vectors is the zero vector, and the quotient does not exist, the angle
  returned is 0.
\<close>

definition vector_theta :: "vec3 \<Rightarrow> vec3 \<Rightarrow> real" where
  "vector_theta u v =
     (if vnorm u * vnorm v = 0 then 0
      else arccos (dot u v / (vnorm u * vnorm v)))"

text \<open>
  Two vectors of three dimensional space are linearly independent when their cross product
  is not the zero vector (\<open>lin_indep_iff\<close> below relates this to linear combinations).
\<close>

definition lin_indep :: "vec3 \<Rightarrow> vec3 \<Rightarrow> bool" where
  "lin_indep u v = (cross u v \<noteq> (0, 0, 0))"

section \<open>Vertex and Edge\<close>

text \<open>
  \<^verbatim>\<open>Edge\<close> extends \<^verbatim>\<open>Vertex\<close> by a direction vector; the class of a site decides
  which \<^verbatim>\<open>place_mol\<close> runs. The fields are those \<^verbatim>\<open>Vertex.__init__\<close> creates.
\<close>

datatype site_class = VertexSite | EdgeSite vec3

record site =
  site_class :: site_class
  coord :: vec3
  connected :: "site_id list"
  heavy_ids :: "atom_id list"
  atom_position_pairs :: "(atom_id \<times> site_id) list"
  distances :: "(real \<times> atom_id \<times> atom_id) list"

type_synonym store = "site_id \<Rightarrow> site"

text \<open>\<^verbatim>\<open>itertools.combinations(xs, 2)\<close>, in its order.\<close>

fun combinations2 :: "'a list \<Rightarrow> ('a \<times> 'a) list" where
  "combinations2 [] = []"
| "combinations2 (x # xs) = map (Pair x) xs @ combinations2 xs"

text \<open>
  \<^verbatim>\<open>edge_direction_vectors\<close> is a generator: an element is computed, and may fail, only
  when it is asked for. The list holds every element's outcome.
\<close>

definition edge_direction_vectors :: "store \<Rightarrow> site_id \<Rightarrow> (error + vec3) list" where
  "edge_direction_vectors ss v =
     map (\<lambda>(edge1, edge2). normalize_vector (vsub (coord (ss edge1)) (coord (ss edge2))))
       (combinations2 (connected (ss v)))"

text \<open>
  \<^verbatim>\<open>v1, v2 = itertools.islice(self.edge_direction_vectors(), 2)\<close> raises
  \<^verbatim>\<open>ValueError\<close> when the generator yields fewer than two vectors, unless computing
  one of them has failed before; then the normal is
  the normalised cross product, negated when its angle with \<^verbatim>\<open>self.connected[0].coord\<close>
  is over \<^verbatim>\<open>np.pi/2\<close>.
\<close>

definition edge_plane_normal :: "store \<Rightarrow> site_id \<Rightarrow> error + vec3" where
  "edge_plane_normal ss v =
     (case take 2 (edge_direction_vectors ss v) of
        [] \<Rightarrow> Inl ValueError
      | [r1] \<Rightarrow> (case r1 of Inl e \<Rightarrow> Inl e | Inr v1 \<Rightarrow> Inl ValueError)
      | r1 # r2 # _ \<Rightarrow>
          (case r1 of Inl e \<Rightarrow> Inl e | Inr v1 \<Rightarrow>
           case r2 of Inl e \<Rightarrow> Inl e | Inr v2 \<Rightarrow>
           case normalize_vector (cross v1 v2) of Inl e \<Rightarrow> Inl e | Inr normal \<Rightarrow>
           case connected (ss v) of [] \<Rightarrow> Inl IndexError | c0 # _ \<Rightarrow>
           let theta = vector_theta normal (coord (ss c0)) in
             Inr (if theta > pi / 2 then smult (- 1) normal else normal)))"

section \<open>Building blocks, the macromolecule and the topology\<close>

text \<open>
  Of a building block the engine reads \<^verbatim>\<open>find_functional_group_atoms()\<close>, the
  \<^verbatim>\<open>heavy_mol\<close> it places and \<^verbatim>\<open>heavy_ids\<close>. Of the macromolecule it reads the building
  blocks and the accessors \<^verbatim>\<open>atom_coords('heavy', id)\<close> and
  \<^verbatim>\<open>atom_distance('heavy', id1, id2)\<close>, which are fields holding functions: an atom
  keeps its coordinates once its fragment is combined into the molecule.
\<close>

record building_block =
  fg_atoms :: "atom_id list list"
  bb_heavy_mol :: mol
  bb_heavy_ids :: "atom_id list"

record macromolecule =
  building_blocks :: "building_block list"
  heavy_mol :: mol
  prist_mol :: mol
  atom_coords :: "atom_id \<Rightarrow> vec3"
  atom_distance :: "atom_id \<Rightarrow> atom_id \<Rightarrow> real"

text \<open>
  \<^verbatim>\<open>positions_A\<close> and \<^verbatim>\<open>positions_B\<close> are attributes of the concrete topology
  class; \<^verbatim>\<open>bb_counter\<close> is a \<^verbatim>\<open>Counter\<close>, a multiset of building blocks.
\<close>

record topology =
  macro_mol :: macromolecule
  bonds_made :: int
  bb_counter :: "building_block multiset"
  positions_A :: "site_id list"
  positions_B :: "site_id list"
  sites :: store

text \<open>\<^verbatim>\<open>Topology.__init__\<close>, given the class attributes of the subclass.\<close>

definition Topology_init :: "macromolecule \<Rightarrow> site_id list \<Rightarrow> site_id list \<Rightarrow> store \<Rightarrow> topology" where
  "Topology_init mm pos_A pos_B ss =
     \<lparr>macro_mol = mm, bonds_made = 0, bb_counter = {#},
      positions_A = pos_A, positions_B = pos_B, sites = ss\<rparr>"

section \<open>Placement\<close>

text \<open>
  \<^verbatim>\<open>Vertex.place_mol\<close> flushes \<^verbatim>\<open>distances\<close>, asks for the edge plane normal (twice,
  with the same outcome) and reads \<^verbatim>\<open>building_block.heavy_ids[0]\<close>. The orientation,
  the rotation by the angle that \<open>vector_theta\<close> returns and the translation are
  methods of the building block and matrix arithmetic; they change coordinates only, which
  the accessors of the macromolecule stand for. The value is
  \<^verbatim>\<open>building_block.heavy_mol\<close>.
\<close>

definition Vertex_place_mol :: "store \<Rightarrow> site_id \<Rightarrow> building_block \<Rightarrow> error + mol \<times> store" where
  "Vertex_place_mol ss v building_block =
     (let ss1 = ss(v := (ss v)\<lparr>distances := []\<rparr>) in
      case edge_plane_normal ss1 v of Inl e \<Rightarrow> Inl e | Inr normal \<Rightarrow>
      case bb_heavy_ids building_block of [] \<Rightarrow> Inl IndexError
      | h # _ \<Rightarrow> Inr (bb_heavy_mol building_block, ss1))"

text \<open>
  \<^verbatim>\<open>Edge.place_mol\<close> flushes \<^verbatim>\<open>distances\<close>; the random flip and the orientation
  change coordinates only.
\<close>

definition Edge_place_mol :: "store \<Rightarrow> site_id \<Rightarrow> building_block \<Rightarrow> error + mol \<times> store" where
  "Edge_place_mol ss v linker = Inr (bb_heavy_mol linker, ss(v := (ss v)\<lparr>distances := []\<rparr>))"

definition place_mol :: "store \<Rightarrow> site_id \<Rightarrow> building_block \<Rightarrow> error + mol \<times> store" where
  "place_mol ss v b =
     (case site_class (ss v) of
        VertexSite \<Rightarrow> Vertex_place_mol ss v b
      | EdgeSite direction \<Rightarrow> Edge_place_mol ss v b)"

text \<open>\<^verbatim>\<open>chem.CombineMols\<close>: the atoms of the second molecule follow those of the first.\<close>

definition CombineMols :: "mol \<Rightarrow> mol \<Rightarrow> mol" where
  "CombineMols m1 m2 =
     \<lparr>atoms = atoms m1 @ atoms m2,
      bonds = bonds m1 @
        map (\<lambda>(a, b, t). (a + length (atoms m1), b + length (atoms m1), t)) (bonds m2)\<rparr>"

text \<open>\<^verbatim>\<open>deque(maxlen=n).append(x)\<close>: a full deque drops its oldest element.\<close>

definition deque_append :: "nat \<Rightarrow> 'a list \<Rightarrow> 'a \<Rightarrow> 'a list" where
  "deque_append maxlen dq x =
     (if maxlen = 0 then []
      else if length dq < maxlen then dq @ [x]
      else tl dq @ [x])"

text \<open>
  The scan of the molecule: \<^verbatim>\<open>GetAtoms()\<close> yields the atoms by index, and the index
  of every atom whose atomic number is in \<^verbatim>\<open>FGInfo.heavy_atomic_nums\<close> is appended.
\<close>

definition scan_heavy_ids :: "fg_registry \<Rightarrow> nat \<Rightarrow> mol \<Rightarrow> atom_id list" where
  "scan_heavy_ids reg maxlen m =
     foldl (\<lambda>dq i. if atoms m ! i \<in> heavy_atomic_nums reg then deque_append maxlen dq i else dq)
       [] [0 ..< length (atoms m)]"

text \<open>The two ways the deque is recorded: \<^verbatim>\<open>sorted(heavy_ids)\<close> and \<^verbatim>\<open>list(heavy_ids)\<close>.\<close>

definition record_sorted :: "fg_registry \<Rightarrow> nat \<Rightarrow> mol \<Rightarrow> atom_id list" where
  "record_sorted reg maxlen m = sort (scan_heavy_ids reg maxlen m)"

definition record_list :: "fg_registry \<Rightarrow> nat \<Rightarrow> mol \<Rightarrow> atom_id list" where
  "record_list reg maxlen m = scan_heavy_ids reg maxlen m"

section \<open>Pairing heavy atoms with connected sites\<close>

text \<open>
  \<^verbatim>\<open>distances.sort()\<close> compares tuples \<^verbatim>\<open>(distance, heavy_id, position)\<close>
  lexicographically. A position is a \<^verbatim>\<open>Vertex\<close>, which defines no ordering: comparing
  two tuples that agree on the distance and the heavy id and hold two different positions
  raises \<^verbatim>\<open>TypeError\<close>, and sorting has to compare them, since they are neighbours in
  every sorted order. Without such a pair the third component never decides.
\<close>

definition sort_site_distances ::
  "(real \<times> atom_id \<times> site_id) list \<Rightarrow> error + (real \<times> atom_id \<times> site_id) list" where
  "sort_site_distances ds =
     (if \<exists>x \<in> set ds. \<exists>y \<in> set ds.
           fst x = fst y \<and> fst (snd x) = fst (snd y) \<and> snd (snd x) \<noteq> snd (snd y)
      then Inl TypeError else Inr (sort ds))"

fun pair_loop ::
  "(real \<times> atom_id \<times> site_id) list \<Rightarrow> atom_id set \<Rightarrow> site_id set \<Rightarrow>
   (atom_id \<times> site_id) list \<Rightarrow> (atom_id \<times> site_id) list" where
  "pair_loop [] paired_ids paired_pos pairs = pairs"
| "pair_loop ((d, heavy_id, pos) # ds) paired_ids paired_pos pairs =
     (if heavy_id \<in> paired_ids \<or> pos \<in> paired_pos then pair_loop ds paired_ids paired_pos pairs
      else pair_loop ds (insert heavy_id paired_ids) (insert pos paired_pos)
             (pairs @ [(heavy_id, pos)]))"

definition site_candidates :: "macromolecule \<Rightarrow> store \<Rightarrow> site_id \<Rightarrow> (real \<times> atom_id \<times> site_id) list" where
  "site_candidates mm ss v =
     concat (map (\<lambda>heavy_id.
               map (\<lambda>position. (euclidean (atom_coords mm heavy_id) (coord (ss position)),
                                heavy_id, position))
                 (connected (ss v)))
             (heavy_ids (ss v)))"

definition pair_heavy_ids_with_connected :: "macromolecule \<Rightarrow> store \<Rightarrow> site_id \<Rightarrow> error + store" where
  "pair_heavy_ids_with_connected mm ss v =
     (case sort_site_distances (site_candidates mm ss v) of
        Inl e \<Rightarrow> Inl e
      | Inr ds \<Rightarrow> Inr (ss(v := (ss v)\<lparr>atom_position_pairs := pair_loop ds {} {} []\<rparr>)))"

section \<open>\<^verbatim>\<open>place_mols\<close>\<close>

text \<open>The comparison of the functional group counts: \<^verbatim>\<open>(lk, n_lk, bb, n_bb)\<close>.\<close>

definition assign_blocks ::
  "building_block \<Rightarrow> building_block \<Rightarrow> building_block \<times> nat \<times> building_block \<times> nat" where
  "assign_blocks bb1 bb2 =
     (let n_fg1 = length (fg_atoms bb1); n_fg2 = length (fg_atoms bb2)
      in if n_fg1 < n_fg2 then (bb1, n_fg1, bb2, n_fg2) else (bb2, n_fg2, bb1, n_fg1))"

fun place_A :: "fg_registry \<Rightarrow> building_block \<Rightarrow> nat \<Rightarrow> site_id list \<Rightarrow> topology \<Rightarrow> error + topology" where
  "place_A reg bb n_bb [] st = Inr st"
| "place_A reg bb n_bb (position # ps) st =
     (case place_mol (sites st) position bb of Inl e \<Rightarrow> Inl e
      | Inr (frag, ss1) \<Rightarrow>
         (let hm = CombineMols (heavy_mol (macro_mol st)) frag;
              mm = (macro_mol st)\<lparr>heavy_mol := hm\<rparr>;
              ss2 = ss1(position := (ss1 position)\<lparr>heavy_ids := record_sorted reg n_bb hm\<rparr>)
          in case pair_heavy_ids_with_connected mm ss2 position of Inl e \<Rightarrow> Inl e
             | Inr ss3 \<Rightarrow>
                 place_A reg bb n_bb ps
                   (st\<lparr>macro_mol := mm, bb_counter := add_mset bb (bb_counter st),
                       sites := ss3\<rparr>)))"

fun place_B :: "fg_registry \<Rightarrow> building_block \<Rightarrow> nat \<Rightarrow> site_id list \<Rightarrow> topology \<Rightarrow> error + topology" where
  "place_B reg lk n_lk [] st = Inr st"
| "place_B reg lk n_lk (position # ps) st =
     (case place_mol (sites st) position lk of Inl e \<Rightarrow> Inl e
      | Inr (frag, ss1) \<Rightarrow>
         (let hm = CombineMols (heavy_mol (macro_mol st)) frag;
              mm = (macro_mol st)\<lparr>heavy_mol := hm\<rparr>;
              ss2 = ss1(position := (ss1 position)\<lparr>heavy_ids := record_list reg n_lk hm\<rparr>)
          in place_B reg lk n_lk ps
               (st\<lparr>macro_mol := mm, bb_counter := add_mset lk (bb_counter st),
                   sites := ss2\<rparr>)))"

definition place_mols :: "fg_registry \<Rightarrow> topology \<Rightarrow> error + topology" where
  "place_mols reg st =
     (let st0 = st\<lparr>macro_mol := (macro_mol st)\<lparr>heavy_mol := \<lparr>atoms = [], bonds = []\<rparr>\<rparr>\<rparr> in
      case building_blocks (macro_mol st0) of
        bb1 # bb2 # rest \<Rightarrow>
          (case assign_blocks bb1 bb2 of (lk, n_lk, bb, n_bb) \<Rightarrow>
             (case place_A reg bb n_bb (positions_A st0) st0 of Inl e \<Rightarrow> Inl e
              | Inr st1 \<Rightarrow> place_B reg lk n_lk (positions_B st1) st1))
      | _ \<Rightarrow> Inl IndexError)"

section \<open>\<^verbatim>\<open>join_mols\<close>\<close>

text \<open>The first loop appends to \<^verbatim>\<open>position.distances\<close>, site after site.\<close>

definition new_distances :: "macromolecule \<Rightarrow> store \<Rightarrow> site_id \<Rightarrow> (real \<times> atom_id \<times> atom_id) list" where
  "new_distances mm ss position =
     concat (map (\<lambda>(atom_id, vertex).
               map (\<lambda>atom2_id. (atom_distance mm atom_id atom2_id, atom_id, atom2_id))
                 (heavy_ids (ss vertex)))
             (atom_position_pairs (ss position)))"

definition collect_distances :: "macromolecule \<Rightarrow> site_id list \<Rightarrow> store \<Rightarrow> store" where
  "collect_distances mm ps ss =
     foldl (\<lambda>s position.
              s(position := (s position)\<lparr>distances := distances (s position) @ new_distances mm s position\<rparr>))
       ss ps"

text \<open>
  The second loop. Its state is the set \<^verbatim>\<open>paired\<close>, the bonds of the editable
  molecule and \<^verbatim>\<open>bonds_made\<close>; \<^verbatim>\<open>determine_bond_type\<close> reads
  \<^verbatim>\<open>self.macro_mol.heavy_mol\<close>, which is replaced only after the loop.
\<close>

type_synonym join_state = "atom_id set \<times> (atom_id \<times> atom_id \<times> bond_type) list \<times> int"

fun bond_loop ::
  "fg_registry \<Rightarrow> mol \<Rightarrow> (real \<times> atom_id \<times> atom_id) list \<Rightarrow> join_state \<Rightarrow> error + join_state" where
  "bond_loop reg m [] s = Inr s"
| "bond_loop reg m ((d, atom1_id, atom2_id) # ds) (paired, bs, n) =
     (if atom1_id \<in> paired \<or> atom2_id \<in> paired then bond_loop reg m ds (paired, bs, n)
      else case determine_bond_type reg m atom1_id atom2_id of Inl e \<Rightarrow> Inl e
           | Inr bond_type \<Rightarrow>
               bond_loop reg m ds
                 (insert atom2_id (insert atom1_id paired),
                  bs @ [(atom1_id, atom2_id, bond_type)], n + 1))"

fun join_sites ::
  "fg_registry \<Rightarrow> mol \<Rightarrow> store \<Rightarrow> site_id list \<Rightarrow> join_state \<Rightarrow> error + join_state" where
  "join_sites reg m ss [] s = Inr s"
| "join_sites reg m ss (position # ps) s =
     (case bond_loop reg m (sort (distances (ss position))) s of Inl e \<Rightarrow> Inl e
      | Inr s' \<Rightarrow> join_sites reg m ss ps s')"

definition join_mols :: "fg_registry \<Rightarrow> topology \<Rightarrow> error + topology" where
  "join_mols reg st =
     (let ss = collect_distances (macro_mol st) (positions_A st) (sites st);
          m = heavy_mol (macro_mol st)
      in case join_sites reg m ss (positions_A st) ({}, bonds m, bonds_made st) of
           Inl e \<Rightarrow> Inl e
         | Inr (paired, bs, n) \<Rightarrow>
             Inr (st\<lparr>macro_mol := (macro_mol st)\<lparr>heavy_mol := m\<lparr>bonds := bs\<rparr>\<rparr>,
                     bonds_made := n, sites := ss\<rparr>))"

section \<open>\<^verbatim>\<open>final_sub\<close> and build\<close>

fun next_target_atomic_num :: "fg_info list \<Rightarrow> nat \<Rightarrow> error + nat" where
  "next_target_atomic_num [] n = Inl StopIteration"
| "next_target_atomic_num (x # xs) n =
     (if heavy_atomic_num x = n then Inr (target_atomic_num x) else next_target_atomic_num xs n)"

fun sub_atoms :: "fg_registry \<Rightarrow> nat list \<Rightarrow> error + nat list" where
  "sub_atoms reg [] = Inr []"
| "sub_atoms reg (atomic_num # ns) =
     (case (if atomic_num \<in> heavy_atomic_nums reg
            then next_target_atomic_num (functional_group_list reg) atomic_num
            else Inr atomic_num) of
        Inl e \<Rightarrow> Inl e
      | Inr t \<Rightarrow> (case sub_atoms reg ns of Inl e \<Rightarrow> Inl e | Inr ts \<Rightarrow> Inr (t # ts)))"

text \<open>\<^verbatim>\<open>chem.AddHs\<close> is rdkit's; it is an argument.\<close>

definition final_sub :: "fg_registry \<Rightarrow> (mol \<Rightarrow> mol) \<Rightarrow> topology \<Rightarrow> error + topology" where
  "final_sub reg AddHs st =
     (case sub_atoms reg (atoms (heavy_mol (macro_mol st))) of Inl e \<Rightarrow> Inl e
      | Inr ts \<Rightarrow>
          Inr (st\<lparr>macro_mol := (macro_mol st)\<lparr>prist_mol := AddHs ((heavy_mol (macro_mol st))\<lparr>atoms := ts\<rparr>)\<rparr>\<rparr>))"

definition build :: "fg_registry \<Rightarrow> (mol \<Rightarrow> mol) \<Rightarrow> topology \<Rightarrow> error + topology" where
  "build reg AddHs st =
     (case place_mols reg st of Inl e \<Rightarrow> Inl e
      | Inr st1 \<Rightarrow>
     (case join_mols reg st1 of Inl e \<Rightarrow> Inl e
      | Inr st2 \<Rightarrow> final_sub reg AddHs st2))"

section \<open>Greedy exclusive matching, in the words of the spec\<close>

text \<open>
  The spec's shared primitive: go through the candidates in their order and accept a pair
  only if neither of its two atoms has been claimed by an accepted pair before it.
\<close>

fun greedy_exclusive_match ::
  "atom_id set \<Rightarrow> (real \<times> atom_id \<times> atom_id) list \<Rightarrow> (atom_id \<times> atom_id) list" where
  "greedy_exclusive_match claimed [] = []"
| "greedy_exclusive_match claimed ((d, a, b) # cs) =
     (if a \<in> claimed \<or> b \<in> claimed then greedy_exclusive_match claimed cs
      else (a, b) # greedy_exclusive_match (insert a (insert b claimed)) cs)"

text \<open>
  The order of the final pass as the spec words it: every triple of every site of
  \<open>positions_A\<close>, sorted as one list.
\<close>

definition spec_global_order :: "store \<Rightarrow> site_id list \<Rightarrow> (real \<times> atom_id \<times> atom_id) list" where
  "spec_global_order ss ps = sort (concat (map (\<lambda>position. distances (ss position)) ps))"

text \<open>
  The order of the final pass as the loops go through it: the sites in the order of
  \<open>positions_A\<close>, each site's own triples sorted.
\<close>

definition site_by_site_order :: "store \<Rightarrow> site_id list \<Rightarrow> (real \<times> atom_id \<times> atom_id) list" where
  "site_by_site_order ss ps = concat (map (\<lambda>position. sort (distances (ss position))) ps)"

text \<open>The bonds of a list that an atom takes part in, and the atom pair of a bond.\<close>

definition bonds_of_atom :: "(atom_id \<times> atom_id) list \<Rightarrow> atom_id \<Rightarrow> (atom_id \<times> atom_id) list" where
  "bonds_of_atom bs x = filter (\<lambda>(a, b). x = a \<or> x = b) bs"

definition bond_pair :: "atom_id \<times> atom_id \<times> bond_type \<Rightarrow> atom_id \<times> atom_id" where
  "bond_pair b = (fst b, fst (snd b))"

section \<open>An example: two vertices that share three edges\<close>

text \<open>
  Two vertices, the sites 0 and 1, are each connected to the edges 2, 3 and 4; building
  blocks go on the two vertices and on the edge 2. The core block has three heavy atoms,
  the linker two; the linker is supplied first. After placement the atoms 0, 1, 2 sit on
  vertex 0, the atoms 3, 4, 5 on vertex 1 and the atoms 6, 7 on the edge 2, at the
  coordinates \<open>ex_coords\<close>.
\<close>

definition ex_core :: building_block where
  "ex_core = \<lparr>fg_atoms = [[0], [1], [2]], bb_heavy_mol = \<lparr>atoms = [39, 39, 39], bonds = []\<rparr>,
              bb_heavy_ids = [0, 1, 2]\<rparr>"

definition ex_linker :: building_block where
  "ex_linker = \<lparr>fg_atoms = [[0], [1]],
                bb_heavy_mol = \<lparr>atoms = [45, 45], bonds = [(0, 1, SINGLE)]\<rparr>,
                bb_heavy_ids = [0, 1]\<rparr>"

definition ex_coords :: "atom_id \<Rightarrow> vec3" where
  "ex_coords = (\<lambda>a. (0, 0, 0))
     (0 := (2, 0, 4), 1 := (0, 1, 4), 2 := (1, - 2, 4),
      3 := (2, 0, 1), 4 := (0, 1, - 4), 5 := (1, - 2, - 4),
      6 := (1, 0, 2), 7 := (1, 0, - 2))"

definition ex_mm :: macromolecule where
  "ex_mm = \<lparr>building_blocks = [ex_linker, ex_core],
            heavy_mol = \<lparr>atoms = [], bonds = []\<rparr>,
            prist_mol = \<lparr>atoms = [], bonds = []\<rparr>,
            atom_coords = ex_coords,
            atom_distance = (\<lambda>a b. euclidean (ex_coords a) (ex_coords b))\<rparr>"

definition new_site :: "site_class \<Rightarrow> vec3 \<Rightarrow> site_id list \<Rightarrow> site" where
  "new_site c x ns = \<lparr>site_class = c, coord = x, connected = ns, heavy_ids = [],
                      atom_position_pairs = [], distances = []\<rparr>"

definition ex_sites :: store where
  "ex_sites = (\<lambda>i. new_site VertexSite (0, 0, 0) [])
     (0 := new_site VertexSite (0, 0, 1) [2, 3, 4],
      1 := new_site VertexSite (0, 0, - 1) [2, 3, 4],
      2 := new_site (EdgeSite (0, 0, 1)) (1, 0, 0) [0, 1],
      3 := new_site (EdgeSite (0, 0, 1)) (0, 0, 0) [0, 1],
      4 := new_site (EdgeSite (0, 0, 1)) (1, - 1, 0) [0, 1])"

definition ex_top :: topology where
  "ex_top = Topology_init ex_mm [0, 1] [2] ex_sites"

text \<open>The example after \<open>place_mols\<close> and after \<open>build\<close> (with the identity for \<^verbatim>\<open>AddHs\<close>).\<close>

definition ex_placed_sites :: store where
  "ex_placed_sites = ex_sites
     (0 := \<lparr>site_class = VertexSite, coord = (0, 0, 1), connected = [2, 3, 4],
            heavy_ids = [0, 1, 2], atom_position_pairs = [(0, 2), (1, 3), (2, 4)],
            distances = []\<rparr>,
      1 := \<lparr>site_class = VertexSite, coord = (0, 0, - 1), connected = [2, 3, 4],
            heavy_ids = [3, 4, 5], atom_position_pairs = [(3, 2), (4, 3), (5, 4)],
            distances = []\<rparr>,
      2 := \<lparr>site_class = EdgeSite (0, 0, 1), coord = (1, 0, 0), connected = [0, 1],
            heavy_ids = [6, 7], atom_position_pairs = [], distances = []\<rparr>)"

definition ex_placed :: topology where
  "ex_placed =
     \<lparr>macro_mol = ex_mm\<lparr>heavy_mol :=
        \<lparr>atoms = [39, 39, 39, 39, 39, 39, 45, 45], bonds = [(6, 7, SINGLE)]\<rparr>\<rparr>,
      bonds_made = 0,
      bb_counter = {#ex_linker, ex_core, ex_core#},
      positions_A = [0, 1], positions_B = [2],
      sites = ex_placed_sites\<rparr>"

definition ex_joined_sites :: store where
  "ex_joined_sites = ex_placed_sites
     (0 := (ex_placed_sites 0)\<lparr>distances := [(sqrt 5, 0, 6), (sqrt 37, 0, 7)]\<rparr>,
      1 := (ex_placed_sites 1)\<lparr>distances := [(sqrt 2, 3, 6), (sqrt 10, 3, 7)]\<rparr>)"

definition ex_joined :: topology where
  "ex_joined =
     \<lparr>macro_mol = ex_mm\<lparr>heavy_mol :=
        \<lparr>atoms = [39, 39, 39, 39, 39, 39, 45, 45],
         bonds = [(6, 7, SINGLE), (0, 6, DOUBLE), (3, 7, DOUBLE)]\<rparr>\<rparr>,
      bonds_made = 2,
      bb_counter = {#ex_linker, ex_core, ex_core#},
      positions_A = [0, 1], positions_B = [2],
      sites = ex_joined_sites\<rparr>"

definition ex_built :: topology where
  "ex_built = ex_joined\<lparr>macro_mol := (macro_mol ex_joined)\<lparr>prist_mol :=
     \<lparr>atoms = [6, 6, 6, 6, 6, 6, 7, 7],
      bonds = [(6, 7, SINGLE), (0, 6, DOUBLE), (3, 7, DOUBLE)]\<rparr>\<rparr>\<rparr>"

text \<open>
  A variant in which the two blocks have the same number of functional groups: the core
  is supplied first, and the linker reports three groups.
\<close>

definition ex_linker3 :: building_block where
  "ex_linker3 = ex_linker\<lparr>fg_atoms := [[0], [1], [0, 1]]\<rparr>"

definition ex_top_tie :: topology where
  "ex_top_tie = Topology_init (ex_mm\<lparr>building_blocks := [ex_core, ex_linker3]\<rparr>) [0, 1] [2] ex_sites"

definition ex_placed_tie :: topology where
  "ex_placed_tie =
     \<lparr>macro_mol = ex_mm\<lparr>building_blocks := [ex_core, ex_linker3], heavy_mol :=
        \<lparr>atoms = [39, 39, 39, 39, 39, 39, 45, 45], bonds = [(6, 7, SINGLE)]\<rparr>\<rparr>,
      bonds_made = 0,
      bb_counter = {#ex_linker3, ex_core, ex_core#},
      positions_A = [0, 1], positions_B = [2],
      sites = ex_placed_sites(2 := (ex_placed_sites 2)\<lparr>heavy_ids := [5, 6, 7]\<rparr>)\<rparr>"

text \<open>
  The example with atom 0 moved to \<open>(1, 0, 4)\<close>, where it is at the same distance from
  the edges 3 and 4; \<open>tie_sites\<close> is the store when vertex 0 is paired.
\<close>

definition tie_mm :: macromolecule where
  "tie_mm = ex_mm\<lparr>atom_coords := ex_coords(0 := (1, 0, 4))\<rparr>"

definition tie_top :: topology where
  "tie_top = Topology_init tie_mm [0, 1] [2] ex_sites"

definition tie_sites :: store where
  "tie_sites = ex_sites(0 := (ex_sites 0)\<lparr>heavy_ids := [0, 1, 2]\<rparr>)"

text \<open>
  A vertex whose first neighbour is at the origin, as the edge between two opposite
  vertices is.
\<close>

definition origin_sites :: store where
  "origin_sites = (\<lambda>i. new_site VertexSite (0, 0, 0) [])
     (0 := new_site VertexSite (0, 0, 1) [1, 2, 3],
      1 := new_site (EdgeSite (0, 0, 1)) (0, 0, 0) [0],
      2 := new_site (EdgeSite (0, 0, 1)) (1, 0, 0) [0],
      3 := new_site (EdgeSite (0, 0, 1)) (0, 1, 0) [0])"

text \<open>
  A vertex whose neighbours lie in the plane \<open>z = - 1\<close>, listed so that the cross
  product of the first two direction vectors points to the origin's side.
\<close>

definition below_sites :: store where
  "below_sites = (\<lambda>i. new_site VertexSite (0, 0, 0) [])
     (0 := new_site VertexSite (0, 0, - 2) [1, 2, 3],
      1 := new_site (EdgeSite (0, 0, 1)) (1, 0, - 1) [0],
      2 := new_site (EdgeSite (0, 0, 1)) (0, 0, - 1) [0],
      3 := new_site (EdgeSite (0, 0, 1)) (1, - 1, - 1) [0])"

section \<open>Properties of the bond order rule\<close>

lemma next_heavy_symbol_registered:
  "\<exists>x \<in> set fgl. heavy_atomic_num x = n \<Longrightarrow>
   \<exists>x \<in> set fgl. heavy_atomic_num x = n \<and> next_heavy_symbol fgl n = Inr (heavy_symbol x)"
  by (induction fgl) auto

lemma next_heavy_symbol_unregistered:
  "\<not> (\<exists>x \<in> set fgl. heavy_atomic_num x = n) \<Longrightarrow> next_heavy_symbol fgl n = Inl StopIteration"
  by (induction fgl) auto

lemma next_heavy_symbol_cases:
  "next_heavy_symbol fgl n = Inl StopIteration \<or> (\<exists>s. next_heavy_symbol fgl n = Inr s)"
  by (induction fgl) auto

lemma double_bond_present_iff:
  "True \<in> set (double_bond_present combs s1 s2) \<longleftrightarrow> (s1, s2) \<in> set combs \<or> (s2, s1) \<in> set combs"
  by (auto simp: double_bond_present_def)


text \<open>
  Claim C6. For two atoms of the molecule whose atomic numbers are registered,
  \<open>determine_bond_type\<close> returns \<open>DOUBLE\<close> if and only if the pair of their heavy symbols
  is an entry of \<open>double_bond_combs\<close> in one of the two orders, returns \<open>SINGLE\<close>
  otherwise, and gives the same answer for both orders of its arguments.
\<close>

theorem determine_bond_type_rule:
  assumes "a < length (atoms m)" and "b < length (atoms m)"
    and "registered reg (atoms m ! a)" and "registered reg (atoms m ! b)"
  shows "\<exists>sa sb.
           next_heavy_symbol (functional_group_list reg) (atoms m ! a) = Inr sa \<and>
           next_heavy_symbol (functional_group_list reg) (atoms m ! b) = Inr sb \<and>
           (determine_bond_type reg m a b = Inr DOUBLE \<longleftrightarrow>
              (sa, sb) \<in> set (double_bond_combs reg) \<or> (sb, sa) \<in> set (double_bond_combs reg)) \<and>
           (determine_bond_type reg m a b = Inr SINGLE \<longleftrightarrow>
              \<not> ((sa, sb) \<in> set (double_bond_combs reg) \<or> (sb, sa) \<in> set (double_bond_combs reg))) \<and>
           determine_bond_type reg m a b = determine_bond_type reg m b a"
proof -
  from assms(3) obtain sa where sa: "next_heavy_symbol (functional_group_list reg) (atoms m ! a) = Inr sa"
    using next_heavy_symbol_registered unfolding registered_def by blast
  from assms(4) obtain sb where sb: "next_heavy_symbol (functional_group_list reg) (atoms m ! b) = Inr sb"
    using next_heavy_symbol_registered unfolding registered_def by blast
  have ab: "determine_bond_type reg m a b =
      (if (sa, sb) \<in> set (double_bond_combs reg) \<or> (sb, sa) \<in> set (double_bond_combs reg)
       then Inr DOUBLE else Inr SINGLE)"
    using assms(1,2) sa sb
    by (simp add: determine_bond_type_def GetAtomicNum_def double_bond_present_iff)
  have ba: "determine_bond_type reg m b a =
      (if (sb, sa) \<in> set (double_bond_combs reg) \<or> (sa, sb) \<in> set (double_bond_combs reg)
       then Inr DOUBLE else Inr SINGLE)"
    using assms(1,2) sa sb
    by (simp add: determine_bond_type_def GetAtomicNum_def double_bond_present_iff)
  show ?thesis
    using sa sb ab ba by auto
qed

theorem determine_bond_type_rule_witness:
  "0 < length (atoms mol0) \<and> 1 < length (atoms mol0) \<and>
   registered reg0 (atoms mol0 ! 0) \<and> registered reg0 (atoms mol0 ! 1) \<and>
   determine_bond_type reg0 mol0 0 1 = Inr DOUBLE \<and>
   determine_bond_type reg0 mol0 0 1 = determine_bond_type reg0 mol0 1 0"
proof -
  have h1: "0 < length (atoms mol0)" and h2: "1 < length (atoms mol0)"
    by (simp_all add: mol0_def)
  have h3: "registered reg0 (atoms mol0 ! 0)" and h4: "registered reg0 (atoms mol0 ! 1)"
    by (simp_all add: registered_def reg0_def mol0_def)
  have sa: "next_heavy_symbol (functional_group_list reg0) (atoms mol0 ! 0) = Inr ''Y''"
    by (simp add: reg0_def mol0_def)
  have sb: "next_heavy_symbol (functional_group_list reg0) (atoms mol0 ! 1) = Inr ''Rh''"
    by (simp add: reg0_def mol0_def)
  have c: "(''Rh'', ''Y'') \<in> set (double_bond_combs reg0)"
    by (simp add: reg0_def)
  from determine_bond_type_rule [OF h1 h2 h3 h4] sa sb c
  have "determine_bond_type reg0 mol0 0 1 = Inr DOUBLE \<and>
        determine_bond_type reg0 mol0 0 1 = determine_bond_type reg0 mol0 1 0"
    by auto
  with h1 h2 h3 h4 show ?thesis by blast
qed

text \<open>
  Claim C3, as stated, asks for \<open>MissingFunctionalGroupError\<close>. Atom 3 of \<open>mol0\<close> has the
  atomic number 41, which \<open>reg0\<close> does not register: the bare \<^verbatim>\<open>next\<close> raises
  \<open>StopIteration\<close>.
\<close>

theorem determine_bond_type_unregistered_counterexample:
  "3 < length (atoms mol0) \<and> \<not> registered reg0 (atoms mol0 ! 3) \<and>
   determine_bond_type reg0 mol0 0 3 = Inl StopIteration \<and>
   determine_bond_type reg0 mol0 0 3 \<noteq> Inl MissingFunctionalGroupError"
  by (simp add: determine_bond_type_def GetAtomicNum_def registered_def reg0_def mol0_def)

text \<open>
  Claim C3, amended. For two atoms of the molecule of which at least one has an atomic
  number with no entry in the registry, \<open>determine_bond_type\<close> fails with
  \<open>StopIteration\<close>: it returns no bond order and takes no default.
\<close>

theorem determine_bond_type_unregistered:
  assumes "a < length (atoms m)" and "b < length (atoms m)"
    and "\<not> registered reg (atoms m ! a) \<or> \<not> registered reg (atoms m ! b)"
  shows "determine_bond_type reg m a b = Inl StopIteration"
proof (cases "registered reg (atoms m ! a)")
  case False
  then have "next_heavy_symbol (functional_group_list reg) (atoms m ! a) = Inl StopIteration"
    using next_heavy_symbol_unregistered unfolding registered_def by blast
  with assms(1,2) show ?thesis
    by (simp add: determine_bond_type_def GetAtomicNum_def)
next
  case True
  with assms(3) have "\<not> registered reg (atoms m ! b)" by simp
  then have b: "next_heavy_symbol (functional_group_list reg) (atoms m ! b) = Inl StopIteration"
    using next_heavy_symbol_unregistered unfolding registered_def by blast
  from True obtain sa where "next_heavy_symbol (functional_group_list reg) (atoms m ! a) = Inr sa"
    using next_heavy_symbol_registered unfolding registered_def by blast
  with b assms(1,2) show ?thesis
    by (simp add: determine_bond_type_def GetAtomicNum_def)
qed

theorem determine_bond_type_unregistered_witness:
  "0 < length (atoms mol0) \<and> 3 < length (atoms mol0) \<and>
   \<not> registered reg0 (atoms mol0 ! 3) \<and>
   determine_bond_type reg0 mol0 0 3 = Inl StopIteration"
proof -
  have h1: "0 < length (atoms mol0)" and h2: "3 < length (atoms mol0)"
    by (simp_all add: mol0_def)
  have h3: "\<not> registered reg0 (atoms mol0 ! 3)"
    by (simp add: registered_def reg0_def mol0_def)
  then have h3': "\<not> registered reg0 (atoms mol0 ! 0) \<or> \<not> registered reg0 (atoms mol0 ! 3)" by simp
  from determine_bond_type_unregistered [OF h1 h2 h3'] h1 h2 h3 show ?thesis by blast
qed

section \<open>Recording the heavy ids and placing the building blocks\<close>

lemma deque_append_drop:
  "deque_append n (drop (length xs - n) xs) x = drop (length (xs @ [x]) - n) (xs @ [x])"
proof (cases "n = 0")
  case True
  then show ?thesis by (simp add: deque_append_def)
next
  case False
  show ?thesis
  proof (cases "length xs < n")
    case True
    with False show ?thesis by (simp add: deque_append_def)
  next
    case ge: False
    then have "length xs - n < length xs \<or> xs = []" using False by auto
    have "tl (drop (length xs - n) xs) = drop (Suc (length xs - n)) xs"
      by (simp add: drop_Suc tl_drop)
    moreover have "Suc (length xs - n) = Suc (length xs) - n" using ge by simp
    ultimately show ?thesis using ge False
      by (simp add: deque_append_def)
  qed
qed

lemma scan_prefix_newest:
  "foldl (\<lambda>dq i. if P i then deque_append n dq i else dq) [] [0 ..< k] =
   drop (length (filter P [0 ..< k]) - n) (filter P [0 ..< k])"
proof (induction k)
  case 0
  then show ?case by simp
next
  case (Suc k)
  show ?case
  proof (cases "P k")
    case True
    then show ?thesis
      using Suc deque_append_drop [of n "filter P [0 ..< k]" k] by simp
  next
    case False
    then show ?thesis using Suc by simp
  qed
qed

lemma scan_heavy_ids_newest:
  "scan_heavy_ids reg n m =
   (let hs = filter (\<lambda>i. atoms m ! i \<in> heavy_atomic_nums reg) [0 ..< length (atoms m)]
    in drop (length hs - n) hs)"
  unfolding scan_heavy_ids_def Let_def by (rule scan_prefix_newest)

lemma scan_strictly_sorted: "sorted_wrt (<) (scan_heavy_ids reg n m)"
  unfolding scan_heavy_ids_newest Let_def
  by (intro sorted_wrt_drop sorted_wrt_filter) simp

lemma record_sorted_eq_list: "record_sorted reg n m = record_list reg n m"
  unfolding record_sorted_def record_list_def
  by (rule sorted_sort_id) (rule strict_sorted_imp_sorted, rule scan_strictly_sorted)

lemma place_mol_frame:
  assumes "place_mol ss p b = Inr (frag, ss1)"
  shows "frag = bb_heavy_mol b \<and> ss1 = ss(p := (ss p)\<lparr>distances := []\<rparr>)"
  using assms
  by (auto simp: place_mol_def Vertex_place_mol_def Edge_place_mol_def Let_def
           split: site_class.splits sum.splits list.splits)

lemma pair_heavy_ids_frame:
  assumes "pair_heavy_ids_with_connected mm ss v = Inr ss'"
  shows "\<exists>ps. ss' = ss(v := (ss v)\<lparr>atom_position_pairs := ps\<rparr>)"
  using assms by (auto simp: pair_heavy_ids_with_connected_def split: sum.splits)

lemma place_A_heavy_ids:
  assumes "place_A reg bb n ps st = Inr st'"
  shows "\<forall>p. p \<in> set ps \<or> sorted_wrt (<) (heavy_ids (sites st p)) \<longrightarrow>
             sorted_wrt (<) (heavy_ids (sites st' p))"
  using assms
proof (induction ps arbitrary: st)
  case Nil
  then show ?case by simp
next
  case (Cons q ps)
  from Cons.prems obtain frag ss1 ss3 where
    pm: "place_mol (sites st) q bb = Inr (frag, ss1)" and
    ph: "pair_heavy_ids_with_connected
           ((macro_mol st)\<lparr>heavy_mol := CombineMols (heavy_mol (macro_mol st)) frag\<rparr>)
           (ss1(q := (ss1 q)\<lparr>heavy_ids :=
               record_sorted reg n (CombineMols (heavy_mol (macro_mol st)) frag)\<rparr>)) q = Inr ss3" and
    rest: "place_A reg bb n ps
             (st\<lparr>macro_mol := (macro_mol st)\<lparr>heavy_mol := CombineMols (heavy_mol (macro_mol st)) frag\<rparr>,
                 bb_counter := add_mset bb (bb_counter st), sites := ss3\<rparr>) = Inr st'"
    by (auto simp: Let_def split: sum.splits prod.splits)
  from place_mol_frame [OF pm] have ss1: "ss1 = (sites st)(q := (sites st q)\<lparr>distances := []\<rparr>)" by simp
  from pair_heavy_ids_frame [OF ph] obtain aps where
    ss3: "ss3 = (ss1(q := (ss1 q)\<lparr>heavy_ids :=
               record_sorted reg n (CombineMols (heavy_mol (macro_mol st)) frag)\<rparr>))
             (q := ((ss1(q := (ss1 q)\<lparr>heavy_ids :=
               record_sorted reg n (CombineMols (heavy_mol (macro_mol st)) frag)\<rparr>)) q)\<lparr>atom_position_pairs := aps\<rparr>)"
    by blast
  have hq: "sorted_wrt (<) (heavy_ids (ss3 q))"
    unfolding ss3 by (simp add: record_sorted_eq_list record_list_def scan_strictly_sorted)
  have hother: "\<And>p. p \<noteq> q \<Longrightarrow> heavy_ids (ss3 p) = heavy_ids (sites st p)"
    unfolding ss3 ss1 by simp
  have IH: "\<And>p. p \<in> set ps \<or> sorted_wrt (<) (heavy_ids (ss3 p)) \<Longrightarrow>
             sorted_wrt (<) (heavy_ids (sites st' p))"
    using Cons.IH [OF rest] by auto
  show ?case
  proof (intro allI impI)
    fix p
    assume a: "p \<in> set (q # ps) \<or> sorted_wrt (<) (heavy_ids (sites st p))"
    show "sorted_wrt (<) (heavy_ids (sites st' p))"
    proof (cases "p = q")
      case True
      with hq IH show ?thesis by blast
    next
      case False
      with a hother [OF False] have "p \<in> set ps \<or> sorted_wrt (<) (heavy_ids (ss3 p))" by auto
      then show ?thesis by (rule IH)
    qed
  qed
qed



lemma place_B_heavy_ids:
  assumes "place_B reg lk n ps st = Inr st'"
  shows "\<forall>p. p \<in> set ps \<or> sorted_wrt (<) (heavy_ids (sites st p)) \<longrightarrow>
             sorted_wrt (<) (heavy_ids (sites st' p))"
  using assms
proof (induction ps arbitrary: st)
  case Nil
  then show ?case by simp
next
  case (Cons q ps)
  from Cons.prems obtain frag ss1 where
    pm: "place_mol (sites st) q lk = Inr (frag, ss1)" and
    rest: "place_B reg lk n ps
             (st\<lparr>macro_mol := (macro_mol st)\<lparr>heavy_mol := CombineMols (heavy_mol (macro_mol st)) frag\<rparr>,
                 bb_counter := add_mset lk (bb_counter st),
                 sites := ss1(q := (ss1 q)\<lparr>heavy_ids :=
                    record_list reg n (CombineMols (heavy_mol (macro_mol st)) frag)\<rparr>)\<rparr>) = Inr st'"
    by (auto simp: Let_def split: sum.splits prod.splits)
  define ss2 where "ss2 = ss1(q := (ss1 q)\<lparr>heavy_ids :=
                    record_list reg n (CombineMols (heavy_mol (macro_mol st)) frag)\<rparr>)"
  from place_mol_frame [OF pm] have ss1: "ss1 = (sites st)(q := (sites st q)\<lparr>distances := []\<rparr>)" by simp
  have hq: "sorted_wrt (<) (heavy_ids (ss2 q))"
    unfolding ss2_def by (simp add: record_list_def scan_strictly_sorted)
  have hother: "\<And>p. p \<noteq> q \<Longrightarrow> heavy_ids (ss2 p) = heavy_ids (sites st p)"
    unfolding ss2_def ss1 by simp
  have IH: "\<And>p. p \<in> set ps \<or> sorted_wrt (<) (heavy_ids (ss2 p)) \<Longrightarrow>
             sorted_wrt (<) (heavy_ids (sites st' p))"
    using Cons.IH [OF rest] unfolding ss2_def by auto
  show ?case
  proof (intro allI impI)
    fix p
    assume a: "p \<in> set (q # ps) \<or> sorted_wrt (<) (heavy_ids (sites st p))"
    show "sorted_wrt (<) (heavy_ids (sites st' p))"
    proof (cases "p = q")
      case True
      with hq IH show ?thesis by blast
    next
      case False
      with a hother [OF False] have "p \<in> set ps \<or> sorted_wrt (<) (heavy_ids (ss2 p))" by auto
      then show ?thesis by (rule IH)
    qed
  qed
qed

lemma CombineMols_atoms: "atoms (CombineMols m1 m2) = atoms m1 @ atoms m2"
  by (simp add: CombineMols_def)

lemma place_A_result:
  assumes "place_A reg bb n ps st = Inr st'"
  shows "positions_A st' = positions_A st \<and> positions_B st' = positions_B st \<and>
         bonds_made st' = bonds_made st \<and>
         building_blocks (macro_mol st') = building_blocks (macro_mol st) \<and>
         bb_counter st' = bb_counter st + replicate_mset (length ps) bb \<and>
         atoms (heavy_mol (macro_mol st')) =
           atoms (heavy_mol (macro_mol st)) @ concat (replicate (length ps) (atoms (bb_heavy_mol bb)))"
  using assms
proof (induction ps arbitrary: st)
  case Nil
  then show ?case by simp
next
  case (Cons q ps)
  from Cons.prems obtain frag ss1 ss3 where
    pm: "place_mol (sites st) q bb = Inr (frag, ss1)" and
    rest: "place_A reg bb n ps
             (st\<lparr>macro_mol := (macro_mol st)\<lparr>heavy_mol := CombineMols (heavy_mol (macro_mol st)) frag\<rparr>,
                 bb_counter := add_mset bb (bb_counter st), sites := ss3\<rparr>) = Inr st'"
    by (auto simp: Let_def split: sum.splits prod.splits)
  from place_mol_frame [OF pm] have frag: "frag = bb_heavy_mol bb" by simp
  from Cons.IH [OF rest] show ?case
    by (simp add: frag CombineMols_atoms)
qed

lemma place_B_result:
  assumes "place_B reg lk n ps st = Inr st'"
  shows "positions_A st' = positions_A st \<and> positions_B st' = positions_B st \<and>
         bonds_made st' = bonds_made st \<and>
         building_blocks (macro_mol st') = building_blocks (macro_mol st) \<and>
         bb_counter st' = bb_counter st + replicate_mset (length ps) lk \<and>
         atoms (heavy_mol (macro_mol st')) =
           atoms (heavy_mol (macro_mol st)) @ concat (replicate (length ps) (atoms (bb_heavy_mol lk)))"
  using assms
proof (induction ps arbitrary: st)
  case Nil
  then show ?case by simp
next
  case (Cons q ps)
  from Cons.prems obtain frag ss1 where
    pm: "place_mol (sites st) q lk = Inr (frag, ss1)" and
    rest: "place_B reg lk n ps
             (st\<lparr>macro_mol := (macro_mol st)\<lparr>heavy_mol := CombineMols (heavy_mol (macro_mol st)) frag\<rparr>,
                 bb_counter := add_mset lk (bb_counter st),
                 sites := ss1(q := (ss1 q)\<lparr>heavy_ids :=
                    record_list reg n (CombineMols (heavy_mol (macro_mol st)) frag)\<rparr>)\<rparr>) = Inr st'"
    by (auto simp: Let_def split: sum.splits prod.splits)
  from place_mol_frame [OF pm] have frag: "frag = bb_heavy_mol lk" by simp
  from Cons.IH [OF rest] show ?case
    by (simp add: frag CombineMols_atoms)
qed

lemma place_mols_cases:
  assumes "place_mols reg st = Inr st'"
  obtains bb1 bb2 rest lk n_lk bb n_bb st1 where
    "building_blocks (macro_mol st) = bb1 # bb2 # rest"
    "assign_blocks bb1 bb2 = (lk, n_lk, bb, n_bb)"
    "place_A reg bb n_bb (positions_A st)
       (st\<lparr>macro_mol := (macro_mol st)\<lparr>heavy_mol := \<lparr>atoms = [], bonds = []\<rparr>\<rparr>\<rparr>) = Inr st1"
    "place_B reg lk n_lk (positions_B st) st1 = Inr st'"
proof -
  from assms obtain bb1 bb2 rest where bbs: "building_blocks (macro_mol st) = bb1 # bb2 # rest"
    by (auto simp: place_mols_def Let_def split: list.splits)
  obtain lk n_lk bb n_bb where ab: "assign_blocks bb1 bb2 = (lk, n_lk, bb, n_bb)"
    by (cases "assign_blocks bb1 bb2") auto
  from assms bbs ab obtain st1 where
    a: "place_A reg bb n_bb (positions_A st)
       (st\<lparr>macro_mol := (macro_mol st)\<lparr>heavy_mol := \<lparr>atoms = [], bonds = []\<rparr>\<rparr>\<rparr>) = Inr st1"
    and b: "place_B reg lk n_lk (positions_B st1) st1 = Inr st'"
    by (auto simp: place_mols_def Let_def split: sum.splits)
  from place_A_result [OF a] have "positions_B st1 = positions_B st" by simp
  with bbs ab a b that show thesis by metis
qed

lemma place_mols_result:
  assumes "place_mols reg st = Inr st'"
    and "building_blocks (macro_mol st) = bb1 # bb2 # rest"
    and "assign_blocks bb1 bb2 = (lk, n_lk, bb, n_bb)"
  shows "positions_A st' = positions_A st \<and> positions_B st' = positions_B st \<and>
         bonds_made st' = bonds_made st \<and>
         bb_counter st' = bb_counter st + replicate_mset (length (positions_A st)) bb
                            + replicate_mset (length (positions_B st)) lk \<and>
         atoms (heavy_mol (macro_mol st')) =
           concat (replicate (length (positions_A st)) (atoms (bb_heavy_mol bb))) @
           concat (replicate (length (positions_B st)) (atoms (bb_heavy_mol lk)))"
proof -
  from assms(1) obtain bb1' bb2' rest' lk' n_lk' bb' n_bb' st1 where
    bbs: "building_blocks (macro_mol st) = bb1' # bb2' # rest'" and
    ab: "assign_blocks bb1' bb2' = (lk', n_lk', bb', n_bb')" and
    a: "place_A reg bb' n_bb' (positions_A st)
       (st\<lparr>macro_mol := (macro_mol st)\<lparr>heavy_mol := \<lparr>atoms = [], bonds = []\<rparr>\<rparr>\<rparr>) = Inr st1" and
    b: "place_B reg lk' n_lk' (positions_B st) st1 = Inr st'"
    by (rule place_mols_cases)
  from bbs ab assms(2,3) have eq: "lk' = lk" "bb' = bb" by simp_all
  from place_A_result [OF a] place_B_result [OF b] show ?thesis
    unfolding eq by simp
qed

lemma place_mols_heavy_ids:
  assumes "place_mols reg st = Inr st'" and "p \<in> set (positions_A st) \<union> set (positions_B st)"
  shows "sorted_wrt (<) (heavy_ids (sites st' p))"
proof -
  from assms(1) obtain lk n_lk bb n_bb st1 where
    a: "place_A reg bb n_bb (positions_A st)
       (st\<lparr>macro_mol := (macro_mol st)\<lparr>heavy_mol := \<lparr>atoms = [], bonds = []\<rparr>\<rparr>\<rparr>) = Inr st1" and
    b: "place_B reg lk n_lk (positions_B st) st1 = Inr st'"
    by (rule place_mols_cases)
  show ?thesis
  proof (cases "p \<in> set (positions_B st)")
    case True
    with place_B_heavy_ids [OF b] show ?thesis by blast
  next
    case False
    with assms(2) have "p \<in> set (positions_A st)" by simp
    with place_A_heavy_ids [OF a] have "sorted_wrt (<) (heavy_ids (sites st1 p))" by blast
    with place_B_heavy_ids [OF b] show ?thesis by blast
  qed
qed

section \<open>Exclusive pairing of heavy atoms and sites\<close>

lemma pair_loop_acc: "pair_loop ds ids pos acc = acc @ pair_loop ds ids pos []"
proof (induction ds arbitrary: ids pos acc)
  case Nil
  then show ?case by simp
next
  case (Cons x ds)
  obtain d h p where x: "x = (d, h, p)" by (cases x) auto
  show ?case
  proof (cases "h \<in> ids \<or> p \<in> pos")
    case True
    then show ?thesis using Cons.IH [of ids pos acc] by (simp add: x)
  next
    case False
    then show ?thesis
      using Cons.IH [of "insert h ids" "insert p pos" "acc @ [(h, p)]"]
            Cons.IH [of "insert h ids" "insert p pos" "[(h, p)]"]
      by (simp add: x)
  qed
qed

lemma pair_loop_invariant:
  "fst ` set (pair_loop ds ids pos []) \<inter> ids = {} \<and>
   snd ` set (pair_loop ds ids pos []) \<inter> pos = {} \<and>
   distinct (map fst (pair_loop ds ids pos [])) \<and>
   distinct (map snd (pair_loop ds ids pos [])) \<and>
   set (pair_loop ds ids pos []) \<subseteq> (\<lambda>t. (fst (snd t), snd (snd t))) ` set ds \<and>
   (\<forall>t \<in> set ds. fst (snd t) \<in> ids \<union> fst ` set (pair_loop ds ids pos []) \<or>
                 snd (snd t) \<in> pos \<union> snd ` set (pair_loop ds ids pos []))"
proof (induction ds arbitrary: ids pos)
  case Nil
  then show ?case by simp
next
  case (Cons x ds)
  obtain d h p where x: "x = (d, h, p)" by (cases x) auto
  show ?case
  proof (cases "h \<in> ids \<or> p \<in> pos")
    case True
    then have eq: "pair_loop (x # ds) ids pos [] = pair_loop ds ids pos []" by (simp add: x)
    from Cons.IH [of ids pos] True show ?thesis
      unfolding eq by (auto simp: x)
  next
    case False
    define r where "r = pair_loop ds (insert h ids) (insert p pos) []"
    have eq: "pair_loop (x # ds) ids pos [] = (h, p) # r"
      using False pair_loop_acc [of ds "insert h ids" "insert p pos" "[(h, p)]"]
      by (simp add: x r_def)
    from Cons.IH [of "insert h ids" "insert p pos"] have
      a: "fst ` set r \<inter> insert h ids = {}" and
      b: "snd ` set r \<inter> insert p pos = {}" and
      c: "distinct (map fst r)" and
      d: "distinct (map snd r)" and
      e: "set r \<subseteq> (\<lambda>t. (fst (snd t), snd (snd t))) ` set ds" and
      f: "\<forall>t \<in> set ds. fst (snd t) \<in> insert h ids \<union> fst ` set r \<or>
                         snd (snd t) \<in> insert p pos \<union> snd ` set r"
      unfolding r_def by blast+
    have 1: "fst ` set ((h, p) # r) \<inter> ids = {}" using a False by auto
    have 2: "snd ` set ((h, p) # r) \<inter> pos = {}" using b False by auto
    have 3: "distinct (map fst ((h, p) # r))" using a c by auto
    have 4: "distinct (map snd ((h, p) # r))" using b d by auto
    have 5: "set ((h, p) # r) \<subseteq> (\<lambda>t. (fst (snd t), snd (snd t))) ` set (x # ds)"
      using e by (auto simp: x)
    have 6: "\<forall>t \<in> set (x # ds). fst (snd t) \<in> ids \<union> fst ` set ((h, p) # r) \<or>
                         snd (snd t) \<in> pos \<union> snd ` set ((h, p) # r)"
      using f by (auto simp: x)
    from 1 2 3 4 5 6 show ?thesis unfolding eq by blast
  qed
qed

lemma in_concat_map_map:
  "x \<in> set (concat (map (\<lambda>a. map (f a) ys) xs)) \<longleftrightarrow> (\<exists>a \<in> set xs. \<exists>b \<in> set ys. x = f a b)"
  by auto

lemma in_site_candidates:
  "(d, h, p) \<in> set (site_candidates mm ss v) \<longleftrightarrow>
   h \<in> set (heavy_ids (ss v)) \<and> p \<in> set (connected (ss v)) \<and>
   d = euclidean (atom_coords mm h) (coord (ss p))"
  unfolding site_candidates_def in_concat_map_map by blast

lemma sort_site_distances_set:
  assumes "sort_site_distances ds = Inr ds'"
  shows "set ds' = set ds"
proof -
  from assms have "ds' = sort ds"
    unfolding sort_site_distances_def by (simp split: if_splits)
  then show ?thesis by simp
qed


lemma pair_loop_candidates:
  assumes ds: "set ds = set (site_candidates mm ss v)"
  defines "pairs \<equiv> pair_loop ds {} {} []"
  defines "hs \<equiv> heavy_ids (ss v)" and "conn \<equiv> connected (ss v)"
  shows "distinct (map fst pairs)" and "distinct (map snd pairs)"
    and "set pairs \<subseteq> set hs \<times> set conn"
    and "length pairs \<le> min (length hs) (length conn)"
    and "card (set hs) \<le> card (set conn) \<Longrightarrow> h \<in> set hs \<Longrightarrow> \<exists>!p. (h, p) \<in> set pairs"
proof -
  from pair_loop_invariant [of ds "{}" "{}"] have
    c: "distinct (map fst pairs)" and
    d: "distinct (map snd pairs)" and
    e: "set pairs \<subseteq> (\<lambda>t. (fst (snd t), snd (snd t))) ` set ds" and
    f: "\<forall>t \<in> set ds. fst (snd t) \<in> fst ` set pairs \<or> snd (snd t) \<in> snd ` set pairs"
    unfolding pairs_def by simp_all
  show "distinct (map fst pairs)" by (rule c)
  show "distinct (map snd pairs)" by (rule d)
  show sub: "set pairs \<subseteq> set hs \<times> set conn"
  proof
    fix x assume "x \<in> set pairs"
    with e obtain t where t: "t \<in> set ds" and x: "x = (fst (snd t), snd (snd t))" by blast
    obtain dd h p where tt: "t = (dd, h, p)" by (cases t) auto
    from t ds tt have "(dd, h, p) \<in> set (site_candidates mm ss v)" by simp
    then have "h \<in> set hs \<and> p \<in> set conn"
      unfolding in_site_candidates hs_def conn_def by simp
    with x tt show "x \<in> set hs \<times> set conn" by simp
  qed
  have lf: "length pairs = card (fst ` set pairs)"
    using c distinct_card [of "map fst pairs"] by simp
  have ls: "length pairs = card (snd ` set pairs)"
    using d distinct_card [of "map snd pairs"] by simp
  have fsub: "fst ` set pairs \<subseteq> set hs" and ssub: "snd ` set pairs \<subseteq> set conn"
    using sub by auto
  have "card (fst ` set pairs) \<le> card (set hs)"
    by (rule card_mono) (simp_all add: fsub)
  then have l1: "length pairs \<le> length hs"
    using lf card_length [of hs] by linarith
  have "card (snd ` set pairs) \<le> card (set conn)"
    by (rule card_mono) (simp_all add: ssub)
  then have l2: "length pairs \<le> length conn"
    using ls card_length [of conn] by linarith
  from l1 l2 show "length pairs \<le> min (length hs) (length conn)" by simp
  show "\<exists>!p. (h, p) \<in> set pairs" if le: "card (set hs) \<le> card (set conn)" and h: "h \<in> set hs"
  proof -
    have ex: "h \<in> fst ` set pairs"
    proof (rule ccontr)
      assume nh: "h \<notin> fst ` set pairs"
      have "set conn \<subseteq> snd ` set pairs"
      proof
        fix p assume p: "p \<in> set conn"
        with h have mem: "(euclidean (atom_coords mm h) (coord (ss p)), h, p) \<in> set ds"
          unfolding ds in_site_candidates hs_def conn_def by simp
        from bspec [OF f mem] have "h \<in> fst ` set pairs \<or> p \<in> snd ` set pairs" by simp
        with nh show "p \<in> snd ` set pairs" by simp
      qed
      then have "card (set conn) \<le> card (snd ` set pairs)"
        by (intro card_mono) simp_all
      moreover have "fst ` set pairs \<subseteq> set hs - {h}" using fsub nh by auto
      then have "card (fst ` set pairs) \<le> card (set hs - {h})"
        by (intro card_mono) simp_all
      moreover have "card (set hs - {h}) < card (set hs)"
        using h by (intro card_Diff1_less) simp_all
      ultimately show False using le lf ls by linarith
    qed
    then obtain p where p: "(h, p) \<in> set pairs" by force
    moreover have "q = p" if "(h, q) \<in> set pairs" for q
      using that p c by (meson eq_key_imp_eq_value)
    ultimately show ?thesis by blast
  qed
qed


lemma pair_heavy_ids_pairs:
  assumes "pair_heavy_ids_with_connected mm ss v = Inr ss'"
  shows "atom_position_pairs (ss' v) = pair_loop (sort (site_candidates mm ss v)) {} {} []"
  using assms
  by (auto simp: pair_heavy_ids_with_connected_def sort_site_distances_def
           split: sum.splits if_splits)

section \<open>The bonding loop and greedy exclusive matching\<close>

lemma bond_loop_append:
  "bond_loop reg m (xs @ ys) s =
     (case bond_loop reg m xs s of Inl e \<Rightarrow> Inl e | Inr s' \<Rightarrow> bond_loop reg m ys s')"
proof (induction xs arbitrary: s)
  case Nil
  then show ?case by simp
next
  case (Cons x xs)
  obtain d a b where x: "x = (d, a, b)" by (cases x) auto
  obtain paired bs n where s: "s = (paired, bs, n)" by (cases s) auto
  show ?case
    using Cons.IH by (simp add: x s split: sum.splits)
qed

lemma join_sites_site_by_site:
  "join_sites reg m ss ps s = bond_loop reg m (site_by_site_order ss ps) s"
proof (induction ps arbitrary: s)
  case Nil
  then show ?case by (simp add: site_by_site_order_def)
next
  case (Cons p ps)
  have "site_by_site_order ss (p # ps) = sort (distances (ss p)) @ site_by_site_order ss ps"
    by (simp add: site_by_site_order_def)
  then show ?case
    using Cons.IH by (simp add: bond_loop_append split: sum.splits)
qed

lemma bond_loop_greedy:
  assumes "bond_loop reg m ds (paired, bs, n) = Inr (paired', bs', n')"
  shows "\<exists>new. bs' = bs @ new \<and>
               map bond_pair new = greedy_exclusive_match paired ds \<and>
               n' = n + int (length new) \<and>
               (\<forall>b \<in> set new. determine_bond_type reg m (fst b) (fst (snd b)) = Inr (snd (snd b)))"
  using assms
proof (induction ds arbitrary: paired bs n)
  case Nil
  then show ?case by simp
next
  case (Cons x ds)
  obtain d a1 a2 where x: "x = (d, a1, a2)" by (cases x) auto
  show ?case
  proof (cases "a1 \<in> paired \<or> a2 \<in> paired")
    case True
    with Cons.prems have "bond_loop reg m ds (paired, bs, n) = Inr (paired', bs', n')"
      by (simp add: x)
    from Cons.IH [OF this] True show ?thesis by (simp add: x)
  next
    case False
    with Cons.prems obtain bt where
      bt: "determine_bond_type reg m a1 a2 = Inr bt" and
      rest: "bond_loop reg m ds (insert a2 (insert a1 paired), bs @ [(a1, a2, bt)], n + 1)
               = Inr (paired', bs', n')"
      by (auto simp: x split: sum.splits)
    from Cons.IH [OF rest] obtain new where
      1: "bs' = (bs @ [(a1, a2, bt)]) @ new" and
      2: "map bond_pair new = greedy_exclusive_match (insert a2 (insert a1 paired)) ds" and
      3: "n' = n + 1 + int (length new)" and
      4: "\<forall>b \<in> set new. determine_bond_type reg m (fst b) (fst (snd b)) = Inr (snd (snd b))"
      by blast
    have ins: "insert a2 (insert a1 paired) = insert a1 (insert a2 paired)" by blast
    have "bs' = bs @ ((a1, a2, bt) # new)" using 1 by simp
    moreover have "map bond_pair ((a1, a2, bt) # new) = greedy_exclusive_match paired (x # ds)"
      using False 2 by (simp add: x bond_pair_def ins)
    moreover have "n' = n + int (length ((a1, a2, bt) # new))" using 3 by simp
    moreover have "\<forall>b \<in> set ((a1, a2, bt) # new).
        determine_bond_type reg m (fst b) (fst (snd b)) = Inr (snd (snd b))"
      using 4 bt by simp
    ultimately show ?thesis by blast
  qed
qed

lemma bonds_of_atom_Cons:
  "bonds_of_atom ((a, b) # r) x =
     (if x = a \<or> x = b then (a, b) # bonds_of_atom r x else bonds_of_atom r x)"
  by (simp add: bonds_of_atom_def)

lemma greedy_exclusive:
  "(\<forall>x \<in> claimed. bonds_of_atom (greedy_exclusive_match claimed ds) x = []) \<and>
   (\<forall>x. length (bonds_of_atom (greedy_exclusive_match claimed ds) x) \<le> 1)"
proof (induction ds arbitrary: claimed)
  case Nil
  then show ?case by (simp add: bonds_of_atom_def)
next
  case (Cons t ds)
  obtain d a b where t: "t = (d, a, b)" by (cases t) auto
  show ?case
  proof (cases "a \<in> claimed \<or> b \<in> claimed")
    case True
    then show ?thesis using Cons.IH [of claimed] by (simp add: t)
  next
    case False
    define r where "r = greedy_exclusive_match (insert a (insert b claimed)) ds"
    have eq: "greedy_exclusive_match claimed (t # ds) = (a, b) # r"
      using False by (simp add: t r_def)
    from Cons.IH [of "insert a (insert b claimed)"] have
      z: "\<forall>x \<in> insert a (insert b claimed). bonds_of_atom r x = []" and
      le: "\<forall>x. length (bonds_of_atom r x) \<le> 1"
      unfolding r_def by blast+
    have 1: "\<forall>x \<in> claimed. bonds_of_atom ((a, b) # r) x = []"
      using z False by (auto simp: bonds_of_atom_Cons)
    have 2: "\<forall>x. length (bonds_of_atom ((a, b) # r) x) \<le> 1"
      using z le by (auto simp: bonds_of_atom_Cons)
    from 1 2 show ?thesis unfolding eq by blast
  qed
qed

lemma greedy_exactly_one:
  assumes "(a, b) \<in> set (greedy_exclusive_match claimed ds)"
  shows "length (bonds_of_atom (greedy_exclusive_match claimed ds) a) = 1 \<and>
         length (bonds_of_atom (greedy_exclusive_match claimed ds) b) = 1"
proof -
  let ?r = "greedy_exclusive_match claimed ds"
  from assms have "(a, b) \<in> set (bonds_of_atom ?r a)" and "(a, b) \<in> set (bonds_of_atom ?r b)"
    by (simp_all add: bonds_of_atom_def)
  then have "0 < length (bonds_of_atom ?r a)" and "0 < length (bonds_of_atom ?r b)"
    by (auto simp: length_greater_0_conv)
  moreover from greedy_exclusive [of claimed ds] have
    "length (bonds_of_atom ?r a) \<le> 1" and "length (bonds_of_atom ?r b) \<le> 1" by blast+
  ultimately show ?thesis by linarith
qed

lemma greedy_accepts_in_order:
  "set (greedy_exclusive_match claimed ds) \<subseteq> (\<lambda>t. (fst (snd t), snd (snd t))) ` set ds"
proof (induction ds arbitrary: claimed)
  case Nil
  then show ?case by simp
next
  case (Cons t ds)
  obtain d a b where t: "t = (d, a, b)" by (cases t) auto
  show ?case using Cons.IH [of claimed] Cons.IH [of "insert a (insert b claimed)"]
    by (auto simp: t)
qed

section \<open>Running the example\<close>

lemma ex_sites_simps:
  "ex_sites 0 = new_site VertexSite (0, 0, 1) [2, 3, 4]"
  "ex_sites (Suc 0) = new_site VertexSite (0, 0, - 1) [2, 3, 4]"
  "ex_sites 2 = new_site (EdgeSite (0, 0, 1)) (1, 0, 0) [0, 1]"
  "ex_sites 3 = new_site (EdgeSite (0, 0, 1)) (0, 0, 0) [0, 1]"
  "ex_sites 4 = new_site (EdgeSite (0, 0, 1)) (1, - 1, 0) [0, 1]"
  by (simp_all add: ex_sites_def)

lemma ex_mm_simps:
  "building_blocks ex_mm = [ex_linker, ex_core]"
  "atom_coords ex_mm = ex_coords"
  "atom_distance ex_mm = (\<lambda>a b. euclidean (ex_coords a) (ex_coords b))"
  by (simp_all add: ex_mm_def)

lemma ex_block_simps:
  "fg_atoms ex_core = [[0], [1], [2]]"
  "bb_heavy_mol ex_core = \<lparr>atoms = [39, 39, 39], bonds = []\<rparr>"
  "bb_heavy_ids ex_core = [0, 1, 2]"
  "fg_atoms ex_linker = [[0], [1]]"
  "bb_heavy_mol ex_linker = \<lparr>atoms = [45, 45], bonds = [(0, 1, SINGLE)]\<rparr>"
  "bb_heavy_ids ex_linker = [0, 1]"
  by (simp_all add: ex_core_def ex_linker_def)

lemmas place_defs = place_mols_def assign_blocks_def place_mol_def Vertex_place_mol_def
  Edge_place_mol_def edge_plane_normal_def edge_direction_vectors_def normalize_vector_def
  vector_theta_def vnorm_def euclidean_def CombineMols_def record_sorted_def record_list_def
  scan_heavy_ids_def deque_append_def pair_heavy_ids_with_connected_def site_candidates_def
  sort_site_distances_def Let_def

lemma ex_place_mols: "place_mols reg0 ex_top = Inr ex_placed"
  by (simp add: ex_top_def Topology_init_def ex_placed_def ex_placed_sites_def ex_sites_simps
      ex_mm_simps ex_block_simps new_site_def ex_coords_def reg0_def place_defs)
     (simp add: eval_nat_numeral)


lemma ex_placed_sites_simps:
  "ex_placed_sites 0 = \<lparr>site_class = VertexSite, coord = (0, 0, 1), connected = [2, 3, 4],
            heavy_ids = [0, 1, 2], atom_position_pairs = [(0, 2), (1, 3), (2, 4)],
            distances = []\<rparr>"
  "ex_placed_sites (Suc 0) = \<lparr>site_class = VertexSite, coord = (0, 0, - 1), connected = [2, 3, 4],
            heavy_ids = [3, 4, 5], atom_position_pairs = [(3, 2), (4, 3), (5, 4)],
            distances = []\<rparr>"
  "ex_placed_sites 2 = \<lparr>site_class = EdgeSite (0, 0, 1), coord = (1, 0, 0), connected = [0, 1],
            heavy_ids = [6, 7], atom_position_pairs = [], distances = []\<rparr>"
  "ex_placed_sites 3 = new_site (EdgeSite (0, 0, 1)) (0, 0, 0) [0, 1]"
  "ex_placed_sites 4 = new_site (EdgeSite (0, 0, 1)) (1, - 1, 0) [0, 1]"
  by (simp_all add: ex_placed_sites_def ex_sites_simps)

lemma ex_collect:
  "collect_distances (ex_mm\<lparr>heavy_mol := hm\<rparr>) [0, Suc 0] ex_placed_sites = ex_joined_sites"
  by (simp add: collect_distances_def new_distances_def ex_joined_sites_def ex_placed_sites_simps
      ex_mm_simps new_site_def ex_coords_def euclidean_def vnorm_def)

lemma ex_join_mols: "join_mols reg0 ex_placed = Inr ex_joined"
  by (simp add: join_mols_def ex_placed_def ex_joined_def ex_collect Let_def
      ex_joined_sites_def ex_placed_sites_simps determine_bond_type_def GetAtomicNum_def
      double_bond_present_def reg0_def)

lemma ex_build: "build reg0 id ex_top = Inr ex_built"
  by (simp add: build_def ex_place_mols ex_join_mols)
     (simp add: final_sub_def ex_joined_def ex_built_def reg0_def)

lemma ex_place_mols_tie: "place_mols reg0 ex_top_tie = Inr ex_placed_tie"
  by (simp add: ex_top_tie_def Topology_init_def ex_placed_tie_def ex_placed_sites_def
      ex_sites_simps ex_mm_simps ex_block_simps ex_linker3_def new_site_def ex_coords_def
      reg0_def place_defs)
     (simp add: eval_nat_numeral)

section \<open>Claims about \<^verbatim>\<open>place_mols\<close>\<close>

text \<open>
  Claim C9. The deque of the newest heavy atom ids is in strictly increasing order, so
  \<^verbatim>\<open>sorted(heavy_ids)\<close> and \<^verbatim>\<open>list(heavy_ids)\<close> record the same list, and after
  \<open>place_mols\<close> every site of \<open>positions_A\<close> and of \<open>positions_B\<close> holds its heavy
  ids in strictly increasing order.
\<close>

theorem heavy_ids_increasing:
  "sorted_wrt (<) (scan_heavy_ids reg n m) \<and>
   record_sorted reg n m = record_list reg n m \<and>
   (place_mols reg st = Inr st' \<longrightarrow>
      (\<forall>p \<in> set (positions_A st) \<union> set (positions_B st).
         sorted_wrt (<) (heavy_ids (sites st' p))))"
  using scan_strictly_sorted record_sorted_eq_list place_mols_heavy_ids by blast

theorem heavy_ids_increasing_witness:
  "place_mols reg0 ex_top = Inr ex_placed \<and>
   positions_A ex_top = [0, 1] \<and> positions_B ex_top = [2] \<and>
   heavy_ids (sites ex_placed 0) = [0, 1, 2] \<and> sorted_wrt (<) (heavy_ids (sites ex_placed 0)) \<and>
   heavy_ids (sites ex_placed 1) = [3, 4, 5] \<and> sorted_wrt (<) (heavy_ids (sites ex_placed 1)) \<and>
   heavy_ids (sites ex_placed 2) = [6, 7] \<and> sorted_wrt (<) (heavy_ids (sites ex_placed 2)) \<and>
   record_sorted reg0 3 (heavy_mol (macro_mol ex_placed)) =
     record_list reg0 3 (heavy_mol (macro_mol ex_placed))"
proof -
  have pos: "positions_A ex_top = [0, 1]" "positions_B ex_top = [2]"
    by (simp_all add: ex_top_def Topology_init_def)
  have hs: "heavy_ids (sites ex_placed 0) = [0, 1, 2]" "heavy_ids (sites ex_placed 1) = [3, 4, 5]"
    "heavy_ids (sites ex_placed 2) = [6, 7]"
    by (simp_all add: ex_placed_def ex_placed_sites_def)
  from heavy_ids_increasing [of reg0 3 "heavy_mol (macro_mol ex_placed)" ex_top ex_placed]
    ex_place_mols pos
  have "record_sorted reg0 3 (heavy_mol (macro_mol ex_placed)) =
          record_list reg0 3 (heavy_mol (macro_mol ex_placed))"
    and "sorted_wrt (<) (heavy_ids (sites ex_placed 0))"
    and "sorted_wrt (<) (heavy_ids (sites ex_placed 1))"
    and "sorted_wrt (<) (heavy_ids (sites ex_placed 2))"
    by simp_all
  with ex_place_mols pos hs show ?thesis by simp
qed

text \<open>
  Claim C7. When the two supplied building blocks have different numbers of functional
  groups, the one with more groups is the core and the other the linker: a successful
  \<open>place_mols\<close> puts a copy of the core into the molecule for every site of
  \<open>positions_A\<close>, then a copy of the linker for every site of \<open>positions_B\<close>, and
  adds exactly that many placements of each to the tally \<open>bb_counter\<close>, which
  \<^verbatim>\<open>__init__\<close> leaves empty.
\<close>

theorem place_mols_core_and_linker:
  assumes "building_blocks (macro_mol st) = bb1 # bb2 # rest"
    and "(core, linker) = (bb1, bb2) \<or> (core, linker) = (bb2, bb1)"
    and "length (fg_atoms linker) < length (fg_atoms core)"
    and "place_mols reg st = Inr st'"
  shows "atoms (heavy_mol (macro_mol st')) =
           concat (replicate (length (positions_A st)) (atoms (bb_heavy_mol core))) @
           concat (replicate (length (positions_B st)) (atoms (bb_heavy_mol linker))) \<and>
         bb_counter st' = bb_counter st + replicate_mset (length (positions_A st)) core
                            + replicate_mset (length (positions_B st)) linker \<and>
         count (bb_counter st') core = count (bb_counter st) core + length (positions_A st) \<and>
         count (bb_counter st') linker = count (bb_counter st) linker + length (positions_B st)"
proof -
  have ne: "core \<noteq> linker" using assms(3) by auto
  have "assign_blocks bb1 bb2 =
          (linker, length (fg_atoms linker), core, length (fg_atoms core))"
    using assms(2,3) by (auto simp: assign_blocks_def Let_def)
  from place_mols_result [OF assms(4) assms(1) this] ne show ?thesis
    by simp
qed

theorem place_mols_core_and_linker_witness:
  "building_blocks (macro_mol ex_top) = [ex_linker, ex_core] \<and>
   length (fg_atoms ex_linker) < length (fg_atoms ex_core) \<and>
   place_mols reg0 ex_top = Inr ex_placed \<and>
   atoms (heavy_mol (macro_mol ex_placed)) = [39, 39, 39, 39, 39, 39, 45, 45] \<and>
   count (bb_counter ex_placed) ex_core = 2 \<and>
   count (bb_counter ex_placed) ex_linker = 1"
proof -
  have h1: "building_blocks (macro_mol ex_top) = ex_linker # ex_core # []"
    by (simp add: ex_top_def Topology_init_def ex_mm_def)
  have h2: "(ex_core, ex_linker) = (ex_linker, ex_core) \<or> (ex_core, ex_linker) = (ex_core, ex_linker)"
    by simp
  have h3: "length (fg_atoms ex_linker) < length (fg_atoms ex_core)"
    by (simp add: ex_block_simps)
  have e: "bb_counter ex_top = {#}" "length (positions_A ex_top) = 2"
    "length (positions_B ex_top) = 1"
    by (simp_all add: ex_top_def Topology_init_def)
  have ne: "ex_linker \<noteq> ex_core" by (simp add: ex_core_def ex_linker_def)
  from place_mols_core_and_linker [OF h1 h2 h3 ex_place_mols] e ne
  have "count (bb_counter ex_placed) ex_core = 2"
    and "count (bb_counter ex_placed) ex_linker = 1"
    by simp_all
  moreover have "atoms (heavy_mol (macro_mol ex_placed)) = [39, 39, 39, 39, 39, 39, 45, 45]"
    by (simp add: ex_placed_def)
  ultimately show ?thesis using h1 h3 ex_place_mols by simp
qed

text \<open>
  Claim C10. When the two supplied building blocks have the same number of functional
  groups, the comparison takes its else branch: the first block is the core and the
  second the linker. A successful \<open>place_mols\<close> puts a copy of the first block into the
  molecule for every site of \<open>positions_A\<close>, then a copy of the second for every site
  of \<open>positions_B\<close>, and tallies them so.
\<close>

theorem place_mols_equal_counts:
  assumes "building_blocks (macro_mol st) = bb1 # bb2 # rest"
    and "length (fg_atoms bb1) = length (fg_atoms bb2)"
    and "place_mols reg st = Inr st'"
  shows "assign_blocks bb1 bb2 = (bb2, length (fg_atoms bb2), bb1, length (fg_atoms bb1)) \<and>
         atoms (heavy_mol (macro_mol st')) =
           concat (replicate (length (positions_A st)) (atoms (bb_heavy_mol bb1))) @
           concat (replicate (length (positions_B st)) (atoms (bb_heavy_mol bb2))) \<and>
         bb_counter st' = bb_counter st + replicate_mset (length (positions_A st)) bb1
                            + replicate_mset (length (positions_B st)) bb2"
proof -
  have a: "assign_blocks bb1 bb2 = (bb2, length (fg_atoms bb2), bb1, length (fg_atoms bb1))"
    using assms(2) by (simp add: assign_blocks_def Let_def)
  from place_mols_result [OF assms(3) assms(1) a] a show ?thesis by simp
qed

theorem place_mols_equal_counts_witness:
  "building_blocks (macro_mol ex_top_tie) = [ex_core, ex_linker3] \<and>
   length (fg_atoms ex_core) = length (fg_atoms ex_linker3) \<and>
   place_mols reg0 ex_top_tie = Inr ex_placed_tie \<and>
   atoms (heavy_mol (macro_mol ex_placed_tie)) = [39, 39, 39, 39, 39, 39, 45, 45] \<and>
   bb_counter ex_placed_tie = {#ex_core, ex_core, ex_linker3#}"
proof -
  have h1: "building_blocks (macro_mol ex_top_tie) = ex_core # ex_linker3 # []"
    by (simp add: ex_top_tie_def Topology_init_def)
  have h2: "length (fg_atoms ex_core) = length (fg_atoms ex_linker3)"
    by (simp add: ex_block_simps ex_linker3_def)
  have e: "bb_counter ex_top_tie = {#}" "length (positions_A ex_top_tie) = 2"
    "length (positions_B ex_top_tie) = 1"
    by (simp_all add: ex_top_tie_def Topology_init_def)
  from place_mols_equal_counts [OF h1 h2 ex_place_mols_tie] e
  have "bb_counter ex_placed_tie = {#ex_core, ex_core, ex_linker3#}"
    by (simp add: numeral_2_eq_2)
  moreover have "atoms (heavy_mol (macro_mol ex_placed_tie)) = [39, 39, 39, 39, 39, 39, 45, 45]"
    by (simp add: ex_placed_tie_def)
  ultimately show ?thesis using h1 h2 ex_place_mols_tie by simp
qed

section \<open>Properties of \<^verbatim>\<open>join_mols\<close>\<close>

lemma greedy_exclusive_match_snoc:
  "greedy_exclusive_match claimed (ds @ [(d, a, b)]) =
     greedy_exclusive_match claimed ds @
     (if a \<in> claimed \<union> fst ` set (greedy_exclusive_match claimed ds)
                     \<union> snd ` set (greedy_exclusive_match claimed ds) \<or>
         b \<in> claimed \<union> fst ` set (greedy_exclusive_match claimed ds)
                     \<union> snd ` set (greedy_exclusive_match claimed ds)
      then [] else [(a, b)])"
proof (induction ds arbitrary: claimed)
  case Nil
  then show ?case by simp
next
  case (Cons t ds)
  obtain d' a' b' where t: "t = (d', a', b')" by (cases t) auto
  show ?case
  proof (cases "a' \<in> claimed \<or> b' \<in> claimed")
    case True
    then show ?thesis using Cons.IH [of claimed] by (simp add: t)
  next
    case False
    then show ?thesis using Cons.IH [of "insert a' (insert b' claimed)"]
      by (simp add: t)
  qed
qed

lemma join_mols_result:
  assumes "join_mols reg st = Inr st'"
  shows "\<exists>new. sites st' = collect_distances (macro_mol st) (positions_A st) (sites st) \<and>
               positions_A st' = positions_A st \<and>
               atoms (heavy_mol (macro_mol st')) = atoms (heavy_mol (macro_mol st)) \<and>
               bonds (heavy_mol (macro_mol st')) = bonds (heavy_mol (macro_mol st)) @ new \<and>
               map bond_pair new =
                 greedy_exclusive_match {} (site_by_site_order (sites st') (positions_A st)) \<and>
               bonds_made st' = bonds_made st + int (length new) \<and>
               (\<forall>b \<in> set new. determine_bond_type reg (heavy_mol (macro_mol st))
                                  (fst b) (fst (snd b)) = Inr (snd (snd b)))"
proof -
  define ss where "ss = collect_distances (macro_mol st) (positions_A st) (sites st)"
  define m where "m = heavy_mol (macro_mol st)"
  from assms obtain paired bs n where
    js: "join_sites reg m ss (positions_A st) ({}, bonds m, bonds_made st) = Inr (paired, bs, n)"
    and st': "st' = st\<lparr>macro_mol := (macro_mol st)\<lparr>heavy_mol := m\<lparr>bonds := bs\<rparr>\<rparr>,
                     bonds_made := n, sites := ss\<rparr>"
    unfolding join_mols_def ss_def m_def Let_def
    by (auto split: sum.splits prod.splits)
  from js have "bond_loop reg m (site_by_site_order ss (positions_A st))
                  ({}, bonds m, bonds_made st) = Inr (paired, bs, n)"
    by (simp add: join_sites_site_by_site)
  from bond_loop_greedy [OF this] obtain new where
    1: "bs = bonds m @ new" and
    2: "map bond_pair new = greedy_exclusive_match {} (site_by_site_order ss (positions_A st))" and
    3: "n = bonds_made st + int (length new)" and
    4: "\<forall>b \<in> set new. determine_bond_type reg m (fst b) (fst (snd b)) = Inr (snd (snd b))"
    by blast
  show ?thesis
    using 1 2 3 4 unfolding st' ss_def [symmetric] m_def [symmetric]
    by (intro exI [of _ new]) (simp add: m_def)
qed

lemma final_sub_frame:
  assumes "final_sub reg AddHs st = Inr st'"
  shows "bonds_made st' = bonds_made st \<and> heavy_mol (macro_mol st') = heavy_mol (macro_mol st) \<and>
         sites st' = sites st \<and> positions_A st' = positions_A st"
  using assms by (auto simp: final_sub_def split: sum.splits)

lemma place_mols_frame:
  assumes "place_mols reg st = Inr st'"
  shows "bonds_made st' = bonds_made st \<and> positions_A st' = positions_A st \<and>
         positions_B st' = positions_B st"
proof -
  from assms obtain lk n_lk bb n_bb st1 where
    a: "place_A reg bb n_bb (positions_A st)
       (st\<lparr>macro_mol := (macro_mol st)\<lparr>heavy_mol := \<lparr>atoms = [], bonds = []\<rparr>\<rparr>\<rparr>) = Inr st1" and
    b: "place_B reg lk n_lk (positions_B st) st1 = Inr st'"
    by (rule place_mols_cases)
  from place_A_result [OF a] place_B_result [OF b] show ?thesis by simp
qed

section \<open>Claims about \<^verbatim>\<open>join_mols\<close> and build\<close>

lemma ex_joined_bonds:
  "bonds (heavy_mol (macro_mol ex_joined)) =
     bonds (heavy_mol (macro_mol ex_placed)) @ [(0, 6, DOUBLE), (3, 7, DOUBLE)]"
  by (simp add: ex_joined_def ex_placed_def)

lemma ex_joined_distances:
  "distances (sites ex_joined 0) = [(sqrt 5, 0, 6), (sqrt 37, 0, 7)]"
  "distances (sites ex_joined (Suc 0)) = [(sqrt 2, 3, 6), (sqrt 10, 3, 7)]"
  by (simp_all add: ex_joined_def ex_joined_sites_def ex_placed_sites_simps)

lemma ex_site_by_site_order:
  "site_by_site_order (sites ex_joined) (positions_A ex_placed) =
     [(sqrt 5, 0, 6), (sqrt 37, 0, 7), (sqrt 2, 3, 6), (sqrt 10, 3, 7)]"
  by (simp add: site_by_site_order_def ex_joined_distances ex_placed_def)

lemma ex_spec_global_order:
  "spec_global_order (sites ex_joined) (positions_A ex_placed) =
     [(sqrt 2, 3, 6), (sqrt 5, 0, 6), (sqrt 10, 3, 7), (sqrt 37, 0, 7)]"
  by (simp add: spec_global_order_def ex_joined_distances ex_placed_def)

text \<open>
  Claim C1, as stated, takes the triples of all sites as one sorted list. In the example
  the shortest triple of the whole graph joins the atoms 3 and 6 and belongs to the second
  site of \<open>positions_A\<close>; the loop has by then bonded atom 6 to atom 0 of the first
  site. The bonds made are 0-6 and 3-7, those of the one sorted list are 3-6 and 0-7.
\<close>

theorem join_mols_global_order_counterexample:
  "place_mols reg0 ex_top = Inr ex_placed \<and>
   join_mols reg0 ex_placed = Inr ex_joined \<and>
   bonds (heavy_mol (macro_mol ex_joined)) =
     bonds (heavy_mol (macro_mol ex_placed)) @ [(0, 6, DOUBLE), (3, 7, DOUBLE)] \<and>
   spec_global_order (sites ex_joined) (positions_A ex_placed) =
     [(sqrt 2, 3, 6), (sqrt 5, 0, 6), (sqrt 10, 3, 7), (sqrt 37, 0, 7)] \<and>
   greedy_exclusive_match {} (spec_global_order (sites ex_joined) (positions_A ex_placed)) =
     [(3, 6), (0, 7)] \<and>
   set (map bond_pair [(0, 6, DOUBLE), (3, 7, DOUBLE)]) \<noteq>
     set (greedy_exclusive_match {} (spec_global_order (sites ex_joined) (positions_A ex_placed)))"
proof -
  have g: "greedy_exclusive_match {} (spec_global_order (sites ex_joined) (positions_A ex_placed))
             = [(3, 6), (0, 7)]"
    by (simp add: ex_spec_global_order)
  have ne: "set (map bond_pair [(0, 6, DOUBLE), (3, 7, DOUBLE)]) \<noteq> set [(3::nat, 6::nat), (0, 7)]"
    by (auto simp: bond_pair_def)
  show ?thesis
    unfolding g using ex_place_mols ex_join_mols ex_joined_bonds ex_spec_global_order ne
    by simp
qed

text \<open>
  Claim C1, amended. The bonds that a successful \<open>join_mols\<close> adds are the greedy
  exclusive matching over the triples in the order in which the loops go through them: the
  sites in the order of \<open>positions_A\<close>, each site's own accumulated triples sorted
  ascending, with one set of claimed atoms for all sites. A pair is bonded if and only if
  neither of its atoms belongs to a pair accepted before it in that order
  (\<open>greedy_exclusive_match_snoc\<close>).
\<close>

theorem join_mols_site_by_site:
  assumes "join_mols reg st = Inr st'"
  shows "\<exists>new. sites st' = collect_distances (macro_mol st) (positions_A st) (sites st) \<and>
               bonds (heavy_mol (macro_mol st')) = bonds (heavy_mol (macro_mol st)) @ new \<and>
               map bond_pair new =
                 greedy_exclusive_match {} (site_by_site_order (sites st') (positions_A st))"
  using join_mols_result [OF assms] by blast

theorem join_mols_site_by_site_witness:
  "join_mols reg0 ex_placed = Inr ex_joined \<and>
   bonds (heavy_mol (macro_mol ex_joined)) =
     bonds (heavy_mol (macro_mol ex_placed)) @ [(0, 6, DOUBLE), (3, 7, DOUBLE)] \<and>
   site_by_site_order (sites ex_joined) (positions_A ex_placed) =
     [(sqrt 5, 0, 6), (sqrt 37, 0, 7), (sqrt 2, 3, 6), (sqrt 10, 3, 7)] \<and>
   map bond_pair [(0, 6, DOUBLE), (3, 7, DOUBLE)] =
     greedy_exclusive_match {} (site_by_site_order (sites ex_joined) (positions_A ex_placed))"
proof -
  from join_mols_site_by_site [OF ex_join_mols] obtain new where
    b: "bonds (heavy_mol (macro_mol ex_joined)) = bonds (heavy_mol (macro_mol ex_placed)) @ new"
    and g: "map bond_pair new =
       greedy_exclusive_match {} (site_by_site_order (sites ex_joined) (positions_A ex_placed))"
    by blast
  from b ex_joined_bonds have "new = [(0, 6, DOUBLE), (3, 7, DOUBLE)]" by simp
  with g ex_join_mols ex_joined_bonds ex_site_by_site_order show ?thesis by simp
qed

text \<open>
  Claim C2. After a successful \<open>build\<close> of a topology as \<^verbatim>\<open>__init__\<close> leaves it,
  \<open>bonds_made\<close> is the number of pairs that the final pass of \<open>join_mols\<close> accepted,
  which are the bonds added to the placed molecule; no atom takes part in two of these
  bonds, and each atom of an accepted pair takes part in exactly one.
\<close>

theorem build_bonds_made:
  assumes "build reg AddHs (Topology_init mm pos_A pos_B ss) = Inr st'"
  shows "\<exists>st1 new. place_mols reg (Topology_init mm pos_A pos_B ss) = Inr st1 \<and>
           bonds (heavy_mol (macro_mol st')) = bonds (heavy_mol (macro_mol st1)) @ new \<and>
           map bond_pair new =
             greedy_exclusive_match {} (site_by_site_order (sites st') pos_A) \<and>
           bonds_made st' = int (length new) \<and>
           (\<forall>x. length (bonds_of_atom (map bond_pair new) x) \<le> 1) \<and>
           (\<forall>b \<in> set new.
              length (bonds_of_atom (map bond_pair new) (fst b)) = 1 \<and>
              length (bonds_of_atom (map bond_pair new) (fst (snd b))) = 1)"
proof -
  let ?st = "Topology_init mm pos_A pos_B ss"
  from assms obtain st1 st2 where
    p: "place_mols reg ?st = Inr st1" and
    j: "join_mols reg st1 = Inr st2" and
    f: "final_sub reg AddHs st2 = Inr st'"
    by (auto simp: build_def split: sum.splits)
  from place_mols_frame [OF p] have
    bm: "bonds_made st1 = 0" and pa: "positions_A st1 = pos_A"
    by (simp_all add: Topology_init_def)
  from join_mols_result [OF j] obtain new where
    b: "bonds (heavy_mol (macro_mol st2)) = bonds (heavy_mol (macro_mol st1)) @ new" and
    g: "map bond_pair new =
          greedy_exclusive_match {} (site_by_site_order (sites st2) (positions_A st1))" and
    n: "bonds_made st2 = bonds_made st1 + int (length new)"
    by blast
  from final_sub_frame [OF f] have
    fr: "bonds_made st' = bonds_made st2" "heavy_mol (macro_mol st') = heavy_mol (macro_mol st2)"
      "sites st' = sites st2"
    by simp_all
  let ?r = "greedy_exclusive_match {} (site_by_site_order (sites st') pos_A)"
  have g': "map bond_pair new = ?r" using g pa fr by simp
  have le: "\<forall>x. length (bonds_of_atom (map bond_pair new) x) \<le> 1"
    unfolding g' using greedy_exclusive [of "{}"] by blast
  have one: "\<forall>b \<in> set new.
              length (bonds_of_atom (map bond_pair new) (fst b)) = 1 \<and>
              length (bonds_of_atom (map bond_pair new) (fst (snd b))) = 1"
  proof
    fix b assume "b \<in> set new"
    then have "bond_pair b \<in> set (map bond_pair new)" by simp
    then have "(fst b, fst (snd b)) \<in> set ?r" unfolding g' by (simp add: bond_pair_def)
    from greedy_exactly_one [OF this] show
      "length (bonds_of_atom (map bond_pair new) (fst b)) = 1 \<and>
       length (bonds_of_atom (map bond_pair new) (fst (snd b))) = 1"
      unfolding g' .
  qed
  from p b g' n bm fr le one show ?thesis
    by (intro exI [of _ st1] exI [of _ new]) simp
qed

theorem build_bonds_made_witness:
  "build reg0 id (Topology_init ex_mm [0, 1] [2] ex_sites) = Inr ex_built \<and>
   bonds (heavy_mol (macro_mol ex_built)) =
     bonds (heavy_mol (macro_mol ex_placed)) @ [(0, 6, DOUBLE), (3, 7, DOUBLE)] \<and>
   bonds_made ex_built = 2"
proof -
  have bld: "build reg0 id (Topology_init ex_mm [0, 1] [2] ex_sites) = Inr ex_built"
    using ex_build by (simp add: ex_top_def)
  have eb: "bonds (heavy_mol (macro_mol ex_built)) =
     bonds (heavy_mol (macro_mol ex_placed)) @ [(0, 6, DOUBLE), (3, 7, DOUBLE)]"
    by (simp add: ex_built_def ex_joined_def ex_placed_def)
  from build_bonds_made [OF bld] obtain st1 new where
    p: "place_mols reg0 (Topology_init ex_mm [0, 1] [2] ex_sites) = Inr st1" and
    b: "bonds (heavy_mol (macro_mol ex_built)) = bonds (heavy_mol (macro_mol st1)) @ new" and
    n: "bonds_made ex_built = int (length new)"
    by blast
  from p ex_place_mols have "st1 = ex_placed" by (simp add: ex_top_def)
  with b eb have "new = [(0, 6, DOUBLE), (3, 7, DOUBLE)]" by simp
  with n have "bonds_made ex_built = 2" by simp
  with bld eb show ?thesis by simp
qed

section \<open>Claims about \<^verbatim>\<open>pair_heavy_ids_with_connected\<close>\<close>

lemma sort_site_distances_ok:
  assumes "\<forall>x \<in> set ds. \<forall>y \<in> set ds.
             fst x = fst y \<and> fst (snd x) = fst (snd y) \<longrightarrow> snd (snd x) = snd (snd y)"
  shows "sort_site_distances ds = Inr (sort ds)"
proof -
  from assms have "\<not> (\<exists>x \<in> set ds. \<exists>y \<in> set ds.
           fst x = fst y \<and> fst (snd x) = fst (snd y) \<and> snd (snd x) \<noteq> snd (snd y))"
    by blast
  then show ?thesis unfolding sort_site_distances_def by (rule if_not_P)
qed

lemma site_candidates_no_tie:
  assumes "\<forall>h \<in> set (heavy_ids (ss v)). \<forall>p \<in> set (connected (ss v)). \<forall>q \<in> set (connected (ss v)).
             euclidean (atom_coords mm h) (coord (ss p)) =
             euclidean (atom_coords mm h) (coord (ss q)) \<longrightarrow> p = q"
  shows "\<forall>x \<in> set (site_candidates mm ss v). \<forall>y \<in> set (site_candidates mm ss v).
             fst x = fst y \<and> fst (snd x) = fst (snd y) \<longrightarrow> snd (snd x) = snd (snd y)"
proof (intro ballI impI)
  fix x y
  assume x: "x \<in> set (site_candidates mm ss v)" and y: "y \<in> set (site_candidates mm ss v)"
    and e: "fst x = fst y \<and> fst (snd x) = fst (snd y)"
  obtain d h p where xx: "x = (d, h, p)" by (cases x) auto
  obtain d' h' q where yy: "y = (d', h', q)" by (cases y) auto
  from x xx have 1: "h \<in> set (heavy_ids (ss v))" "p \<in> set (connected (ss v))"
    "d = euclidean (atom_coords mm h) (coord (ss p))"
    by (simp_all add: in_site_candidates)
  from y yy have 2: "q \<in> set (connected (ss v))"
    "d' = euclidean (atom_coords mm h') (coord (ss q))"
    by (simp_all add: in_site_candidates)
  from e xx yy have "d = d'" "h = h'" by simp_all
  with 1 2 assms have "p = q" by metis
  then show "snd (snd x) = snd (snd y)" by (simp add: xx yy)
qed

text \<open>
  Claim C4 at a tie. Vertex 0 has three heavy atoms and three neighbours, and atom 0 is at
  the same distance from the neighbours 3 and 4. Two candidate tuples agree on the distance
  and the heavy id, so \<^verbatim>\<open>distances.sort()\<close> compares the two objects that stand for
  the positions and raises \<^verbatim>\<open>TypeError\<close>: no heavy atom of the vertex is paired, and
  \<open>place_mols\<close> fails with it.
\<close>

theorem pair_heavy_ids_tie:
  "heavy_ids (tie_sites 0) = [0, 1, 2] \<and> connected (tie_sites 0) = [2, 3, 4] \<and>
   euclidean (atom_coords tie_mm 0) (coord (tie_sites 3)) = sqrt 17 \<and>
   euclidean (atom_coords tie_mm 0) (coord (tie_sites 4)) = sqrt 17 \<and>
   pair_heavy_ids_with_connected tie_mm tie_sites 0 = Inl TypeError \<and>
   place_mols reg0 tie_top = Inl TypeError"
proof -
  have a: "heavy_ids (tie_sites 0) = [0, 1, 2]" "connected (tie_sites 0) = [2, 3, 4]"
    by (simp_all add: tie_sites_def ex_sites_simps new_site_def)
  have b: "euclidean (atom_coords tie_mm 0) (coord (tie_sites 3)) = sqrt 17"
    "euclidean (atom_coords tie_mm 0) (coord (tie_sites 4)) = sqrt 17"
    by (simp_all add: tie_sites_def tie_mm_def ex_sites_simps new_site_def euclidean_def vnorm_def)
  have c: "pair_heavy_ids_with_connected tie_mm tie_sites 0 = Inl TypeError"
    by (simp add: pair_heavy_ids_with_connected_def sort_site_distances_def site_candidates_def
        tie_sites_def tie_mm_def ex_sites_simps new_site_def ex_coords_def euclidean_def vnorm_def)
  have d: "place_mols reg0 tie_top = Inl TypeError"
    by (simp add: tie_top_def tie_mm_def Topology_init_def ex_sites_simps ex_mm_simps
        ex_block_simps new_site_def ex_coords_def reg0_def place_defs)
  from a b c d show ?thesis by simp
qed

text \<open>
  Supplement to claim C4: the pairing where the sort succeeds, that is, where no heavy atom of the site is at the
  same distance from two different neighbours: \<open>pair_heavy_ids_with_connected\<close>
  returns, no heavy id and no neighbour occurs twice in \<open>atom_position_pairs\<close>, the pairs
  are at most as many as the heavy ids and as the neighbours, and when the heavy ids are
  no more than the neighbours, every heavy atom of the site is paired with exactly one
  neighbour.
\<close>

theorem pair_heavy_ids_exclusive:
  assumes "\<forall>h \<in> set (heavy_ids (ss v)). \<forall>p \<in> set (connected (ss v)). \<forall>q \<in> set (connected (ss v)).
             euclidean (atom_coords mm h) (coord (ss p)) =
             euclidean (atom_coords mm h) (coord (ss q)) \<longrightarrow> p = q"
  shows "\<exists>ss'. pair_heavy_ids_with_connected mm ss v = Inr ss' \<and>
           distinct (map fst (atom_position_pairs (ss' v))) \<and>
           distinct (map snd (atom_position_pairs (ss' v))) \<and>
           set (atom_position_pairs (ss' v)) \<subseteq> set (heavy_ids (ss v)) \<times> set (connected (ss v)) \<and>
           length (atom_position_pairs (ss' v)) \<le>
             min (length (heavy_ids (ss v))) (length (connected (ss v))) \<and>
           (card (set (heavy_ids (ss v))) \<le> card (set (connected (ss v))) \<longrightarrow>
              (\<forall>h \<in> set (heavy_ids (ss v)). \<exists>!p. (h, p) \<in> set (atom_position_pairs (ss' v))))"
proof -
  let ?ds = "sort (site_candidates mm ss v)"
  let ?ss' = "ss(v := (ss v)\<lparr>atom_position_pairs := pair_loop ?ds {} {} []\<rparr>)"
  have ok: "pair_heavy_ids_with_connected mm ss v = Inr ?ss'"
    using sort_site_distances_ok [OF site_candidates_no_tie [OF assms]]
    by (simp add: pair_heavy_ids_with_connected_def)
  have ps: "atom_position_pairs (?ss' v) = pair_loop ?ds {} {} []" by simp
  have s: "set ?ds = set (site_candidates mm ss v)" by simp
  note pl = pair_loop_candidates [OF s]
  show ?thesis
    unfolding ps using ok pl(1) pl(2) pl(3) pl(4) pl(5)
    by (intro exI [of _ ?ss']) (simp only: ps, blast)
qed


theorem pair_heavy_ids_exclusive_witness:
  "\<exists>ss'. pair_heavy_ids_with_connected ex_mm
            (ex_sites(0 := (ex_sites 0)\<lparr>heavy_ids := [0, 1, 2]\<rparr>)) 0 = Inr ss' \<and>
         atom_position_pairs (ss' 0) = [(0, 2), (1, 3), (2, 4)] \<and>
         distinct (map fst (atom_position_pairs (ss' 0))) \<and>
         distinct (map snd (atom_position_pairs (ss' 0)))"
proof -
  let ?ss = "ex_sites(0 := (ex_sites 0)\<lparr>heavy_ids := [0, 1, 2]\<rparr>)"
  have h: "\<forall>h \<in> set (heavy_ids (?ss 0)). \<forall>p \<in> set (connected (?ss 0)). \<forall>q \<in> set (connected (?ss 0)).
             euclidean (atom_coords ex_mm h) (coord (?ss p)) =
             euclidean (atom_coords ex_mm h) (coord (?ss q)) \<longrightarrow> p = q"
    by (simp add: ex_sites_simps new_site_def ex_mm_simps ex_coords_def euclidean_def vnorm_def)
  from pair_heavy_ids_exclusive [OF h] obtain ss' where
    r: "pair_heavy_ids_with_connected ex_mm ?ss 0 = Inr ss'" and
    d: "distinct (map fst (atom_position_pairs (ss' 0)))"
       "distinct (map snd (atom_position_pairs (ss' 0)))"
    by blast
  have "pair_heavy_ids_with_connected ex_mm ?ss 0 =
          Inr (?ss(0 := (?ss 0)\<lparr>atom_position_pairs := [(0, 2), (1, 3), (2, 4)]\<rparr>))"
    by (simp add: pair_heavy_ids_with_connected_def sort_site_distances_def site_candidates_def
        ex_sites_simps new_site_def ex_mm_simps ex_coords_def euclidean_def vnorm_def)
  with r have "atom_position_pairs (ss' 0) = [(0, 2), (1, 3), (2, 4)]" by auto
  with r d show ?thesis by blast
qed

section \<open>Geometry of the edge plane normal\<close>

lemma dot_self_nonneg: "0 \<le> dot v v"
  by (cases v) (auto simp: sum_nonneg)

lemma dot_self_eq_0: "dot v v = 0 \<longleftrightarrow> v = (0, 0, 0)"
proof (cases v)
  case (fields x y z)
  have "x * x + y * y + z * z = 0 \<longleftrightarrow> x = 0 \<and> y = 0 \<and> z = 0"
    using sum_power2_eq_zero_iff [of x y] sum_power2_eq_zero_iff [of "sqrt (x\<^sup>2 + y\<^sup>2)" z]
    by (auto simp: power2_eq_square add_nonneg_eq_0_iff)
  with fields show ?thesis by simp
qed

lemma vnorm_nonneg: "0 \<le> vnorm v"
  by (simp add: vnorm_def dot_self_nonneg)

lemma vnorm_eq_0: "vnorm v = 0 \<longleftrightarrow> v = (0, 0, 0)"
  by (simp add: vnorm_def dot_self_eq_0)

lemma dot_smult: "dot (smult k u) v = k * dot u v"
  by (cases u, cases v) (simp add: algebra_simps)

lemma dot_smult_smult: "dot (smult k u) (smult k u) = k * k * dot u u"
  by (cases u) (simp add: algebra_simps)

lemma vnorm_smult: "vnorm (smult k v) = \<bar>k\<bar> * vnorm v"
  by (simp add: vnorm_def dot_smult_smult real_sqrt_mult)

lemma normalize_vector_unit:
  assumes "normalize_vector v = Inr n"
  shows "vnorm n = 1"
proof -
  from assms have nz: "vnorm v \<noteq> 0" and n: "n = smult (1 / vnorm v) v"
    by (auto simp: normalize_vector_def split: if_splits)
  have "0 < vnorm v" using nz vnorm_nonneg [of v] by linarith
  then show ?thesis by (simp add: n vnorm_smult)
qed

lemma normalize_vector_cases:
  "normalize_vector v = (if v = (0, 0, 0) then Inl ZeroDivisionError
                         else Inr (smult (1 / vnorm v) v))"
  by (simp add: normalize_vector_def vnorm_eq_0)

lemma cauchy_schwarz: "\<bar>dot u v\<bar> \<le> vnorm u * vnorm v"
proof (cases u)
  case u: (fields a b c)
  show ?thesis
  proof (cases v)
    case v: (fields x y z)
    have "(a * x + b * y + c * z)\<^sup>2 + ((a * y - b * x)\<^sup>2 + (a * z - c * x)\<^sup>2 + (b * z - c * y)\<^sup>2)
            = (a * a + b * b + c * c) * (x * x + y * y + z * z)"
      by (simp add: power2_eq_square algebra_simps)
    moreover have "0 \<le> (a * y - b * x)\<^sup>2 + (a * z - c * x)\<^sup>2 + (b * z - c * y)\<^sup>2"
      by simp
    ultimately have "(a * x + b * y + c * z)\<^sup>2 \<le> (a * a + b * b + c * c) * (x * x + y * y + z * z)"
      by linarith
    then have "\<bar>a * x + b * y + c * z\<bar>\<^sup>2 \<le> (a * a + b * b + c * c) * (x * x + y * y + z * z)"
      by simp
    then have "\<bar>a * x + b * y + c * z\<bar> \<le> sqrt ((a * a + b * b + c * c) * (x * x + y * y + z * z))"
      by (rule real_le_rsqrt)
    then show ?thesis by (simp add: u v vnorm_def real_sqrt_mult)
  qed
qed

lemma quotient_bounds:
  fixes d w :: real
  assumes "0 < w" and "\<bar>d\<bar> \<le> w"
  shows "- 1 \<le> d / w \<and> d / w \<le> 1"
proof -
  from assms have "- w \<le> d" and "d \<le> w" by linarith+
  with assms(1) show ?thesis by (simp add: le_divide_eq divide_le_eq)
qed

lemma cos_angle_bounds:
  assumes "vnorm u * vnorm v \<noteq> 0"
  shows "- 1 \<le> dot u v / (vnorm u * vnorm v) \<and> dot u v / (vnorm u * vnorm v) \<le> 1"
proof -
  have pos: "0 < vnorm u * vnorm v"
    using assms vnorm_nonneg [of u] vnorm_nonneg [of v]
    by (metis less_eq_real_def mult_nonneg_nonneg)
  from pos cauchy_schwarz [of u v] show ?thesis by (rule quotient_bounds)
qed

lemma vector_theta_range: "0 \<le> vector_theta u v \<and> vector_theta u v \<le> pi"
proof (cases "vnorm u * vnorm v = 0")
  case True
  then show ?thesis by (simp add: vector_theta_def)
next
  case False
  from cos_angle_bounds [OF False] have
    "0 \<le> arccos (dot u v / (vnorm u * vnorm v)) \<and> arccos (dot u v / (vnorm u * vnorm v)) \<le> pi"
    by (intro arccos_bounded) simp_all
  with False show ?thesis by (simp add: vector_theta_def)
qed

lemma vector_theta_le_pi2:
  assumes "0 \<le> dot u v"
  shows "vector_theta u v \<le> pi / 2"
proof (cases "vnorm u * vnorm v = 0")
  case True
  then show ?thesis by (simp add: vector_theta_def)
next
  case False
  have pos: "0 < vnorm u * vnorm v"
    using False vnorm_nonneg [of u] vnorm_nonneg [of v]
    by (metis less_eq_real_def mult_nonneg_nonneg)
  have "0 \<le> dot u v / (vnorm u * vnorm v)" using assms pos by simp
  moreover have "dot u v / (vnorm u * vnorm v) \<le> 1" using cos_angle_bounds [OF False] by simp
  ultimately have "arccos (dot u v / (vnorm u * vnorm v)) \<le> pi / 2" by (rule arccos_le_pi2)
  with False show ?thesis by (simp add: vector_theta_def)
qed

lemma vector_theta_gt_pi2:
  assumes "vector_theta u v > pi / 2"
  shows "dot u v < 0"
proof (rule ccontr)
  assume "\<not> dot u v < 0"
  then have "0 \<le> dot u v" by simp
  from vector_theta_le_pi2 [OF this] assms show False by linarith
qed

lemma vector_theta_gt_pi2_iff: "vector_theta u v > pi / 2 \<longleftrightarrow> dot u v < 0"
proof
  assume "vector_theta u v > pi / 2"
  then show "dot u v < 0" by (rule vector_theta_gt_pi2)
next
  assume neg: "dot u v < 0"
  have nz: "vnorm u * vnorm v \<noteq> 0"
  proof
    assume "vnorm u * vnorm v = 0"
    then have "u = (0, 0, 0) \<or> v = (0, 0, 0)" by (simp add: vnorm_eq_0)
    then have "dot u v = 0" by (cases u, cases v) auto
    with neg show False by simp
  qed
  have pos: "0 < vnorm u * vnorm v"
    using nz vnorm_nonneg [of u] vnorm_nonneg [of v]
    by (metis less_eq_real_def mult_nonneg_nonneg)
  have "dot u v / (vnorm u * vnorm v) < 0" using neg pos by (simp add: divide_neg_pos)
  moreover have "- 1 \<le> dot u v / (vnorm u * vnorm v)" using cos_angle_bounds [OF nz] by simp
  ultimately have "arccos 0 < arccos (dot u v / (vnorm u * vnorm v))"
    by (intro arccos_less_arccos) simp_all
  then show "vector_theta u v > pi / 2" using nz by (simp add: vector_theta_def)
qed

lemma edge_direction_vectors_first_two:
  assumes "connected (ss v) = c0 # c1 # c2 # rest"
  shows "take 2 (edge_direction_vectors ss v) =
           [normalize_vector (vsub (coord (ss c0)) (coord (ss c1))),
            normalize_vector (vsub (coord (ss c0)) (coord (ss c2)))]"
  using assms by (simp add: edge_direction_vectors_def)

lemma lin_indep_iff:
  "lin_indep u v \<longleftrightarrow>
     (\<forall>a b. vadd (smult a u) (smult b v) = (0, 0, 0) \<longrightarrow> a = 0 \<and> b = 0)"
proof (cases u)
  case u: (fields x1 y1 z1)
  show ?thesis
  proof (cases v)
    case v: (fields x2 y2 z2)
    show ?thesis
    proof
      assume li: "lin_indep u v"
      show "\<forall>a b. vadd (smult a u) (smult b v) = (0, 0, 0) \<longrightarrow> a = 0 \<and> b = 0"
      proof (intro allI impI)
        fix a b assume "vadd (smult a u) (smult b v) = (0, 0, 0)"
        then have e: "a * x1 + b * x2 = 0" "a * y1 + b * y2 = 0" "a * z1 + b * z2 = 0"
          by (simp_all add: u v)
        have a1: "a * (y1 * z2 - z1 * y2) = 0"
        proof -
          have "a * (y1 * z2 - z1 * y2) = (a * y1 + b * y2) * z2 - (a * z1 + b * z2) * y2"
            by (simp add: algebra_simps)
          then show ?thesis using e by simp
        qed
        have a2: "a * (z1 * x2 - x1 * z2) = 0"
        proof -
          have "a * (z1 * x2 - x1 * z2) = (a * z1 + b * z2) * x2 - (a * x1 + b * x2) * z2"
            by (simp add: algebra_simps)
          then show ?thesis using e by simp
        qed
        have a3: "a * (x1 * y2 - y1 * x2) = 0"
        proof -
          have "a * (x1 * y2 - y1 * x2) = (a * x1 + b * x2) * y2 - (a * y1 + b * y2) * x2"
            by (simp add: algebra_simps)
          then show ?thesis using e by simp
        qed
        have b1: "b * (y1 * z2 - z1 * y2) = 0"
        proof -
          have "b * (y1 * z2 - z1 * y2) = y1 * (a * z1 + b * z2) - z1 * (a * y1 + b * y2)"
            by (simp add: algebra_simps)
          then show ?thesis using e by simp
        qed
        have b2: "b * (z1 * x2 - x1 * z2) = 0"
        proof -
          have "b * (z1 * x2 - x1 * z2) = z1 * (a * x1 + b * x2) - x1 * (a * z1 + b * z2)"
            by (simp add: algebra_simps)
          then show ?thesis using e by simp
        qed
        have b3: "b * (x1 * y2 - y1 * x2) = 0"
        proof -
          have "b * (x1 * y2 - y1 * x2) = x1 * (a * y1 + b * y2) - y1 * (a * x1 + b * x2)"
            by (simp add: algebra_simps)
          then show ?thesis using e by simp
        qed
        from li have "y1 * z2 - z1 * y2 \<noteq> 0 \<or> z1 * x2 - x1 * z2 \<noteq> 0 \<or> x1 * y2 - y1 * x2 \<noteq> 0"
          by (auto simp: lin_indep_def u v)
        with a1 a2 a3 b1 b2 b3 show "a = 0 \<and> b = 0" by auto
      qed
    next
      assume ind: "\<forall>a b. vadd (smult a u) (smult b v) = (0, 0, 0) \<longrightarrow> a = 0 \<and> b = 0"
      show "lin_indep u v"
      proof (rule ccontr)
        assume "\<not> lin_indep u v"
        then have c: "y1 * z2 = z1 * y2" "z1 * x2 = x1 * z2" "x1 * y2 = y1 * x2"
          by (simp_all add: lin_indep_def u v)
        have k: "vadd (smult k u) (smult (- l) v) = (k * x1 - l * x2, k * y1 - l * y2, k * z1 - l * z2)"
          for k l by (simp add: u v)
        have "vadd (smult x2 u) (smult (- x1) v) = (0, 0, 0)"
          unfolding k using c by (simp add: mult.commute)
        moreover from ind have "vadd (smult x2 u) (smult (- x1) v) = (0, 0, 0) \<longrightarrow> x2 = 0 \<and> - x1 = 0"
          by blast
        ultimately have x: "x2 = 0" "x1 = 0" by simp_all
        have "vadd (smult y2 u) (smult (- y1) v) = (0, 0, 0)"
          unfolding k using c by (simp add: mult.commute)
        moreover from ind have "vadd (smult y2 u) (smult (- y1) v) = (0, 0, 0) \<longrightarrow> y2 = 0 \<and> - y1 = 0"
          by blast
        ultimately have y: "y2 = 0" "y1 = 0" by simp_all
        have "vadd (smult z2 u) (smult (- z1) v) = (0, 0, 0)"
          unfolding k using c by (simp add: mult.commute)
        moreover from ind have "vadd (smult z2 u) (smult (- z1) v) = (0, 0, 0) \<longrightarrow> z2 = 0 \<and> - z1 = 0"
          by blast
        ultimately have z: "z2 = 0" "z1 = 0" by simp_all
        have "vadd (smult 1 u) (smult 0 v) = (0, 0, 0)" using x y z by (simp add: u v)
        moreover from ind have "vadd (smult 1 u) (smult 0 v) = (0, 0, 0) \<longrightarrow> (1::real) = 0 \<and> (0::real) = 0"
          by blast
        ultimately show False by simp
      qed
    qed
  qed
qed

section \<open>Claims about \<^verbatim>\<open>edge_plane_normal\<close>\<close>

text \<open>
  Claim C5. For a vertex with at least three connected neighbours whose first two edge
  direction vectors are linearly independent, \<open>edge_plane_normal\<close> returns a vector of
  norm 1 whose angle with the coordinate of the first neighbour is at most \<open>pi / 2\<close>:
  it is the normalised cross product of the two direction vectors, negated exactly when
  the angle of that cross product with the coordinate is over \<open>pi / 2\<close>, that is, when
  their dot product is negative.
\<close>

theorem edge_plane_normal_unit_outward:
  assumes conn: "connected (ss v) = c0 # c1 # c2 # rest"
    and v1: "edge_direction_vectors ss v ! 0 = Inr v1"
    and v2: "edge_direction_vectors ss v ! 1 = Inr v2"
    and li: "lin_indep v1 v2"
  shows "\<exists>raw n.
           normalize_vector (cross v1 v2) = Inr raw \<and>
           edge_plane_normal ss v = Inr n \<and>
           n = (if vector_theta raw (coord (ss c0)) > pi / 2 then smult (- 1) raw else raw) \<and>
           (vector_theta raw (coord (ss c0)) > pi / 2 \<longleftrightarrow> dot raw (coord (ss c0)) < 0) \<and>
           vnorm n = 1 \<and>
           0 \<le> vector_theta n (coord (ss c0)) \<and>
           vector_theta n (coord (ss c0)) \<le> pi / 2"
proof -
  let ?c = "coord (ss c0)"
  from edge_direction_vectors_first_two [of ss v c0 c1 c2 rest, OF conn] have
    t2: "take 2 (edge_direction_vectors ss v) =
           [normalize_vector (vsub (coord (ss c0)) (coord (ss c1))),
            normalize_vector (vsub (coord (ss c0)) (coord (ss c2)))]" .
  have n0: "take 2 (edge_direction_vectors ss v) ! 0 = edge_direction_vectors ss v ! 0"
    and n1: "take 2 (edge_direction_vectors ss v) ! 1 = edge_direction_vectors ss v ! 1"
    by simp_all
  from t2 n0 v1 have r1: "normalize_vector (vsub (coord (ss c0)) (coord (ss c1))) = Inr v1"
    by simp
  from t2 n1 v2 have r2: "normalize_vector (vsub (coord (ss c0)) (coord (ss c2))) = Inr v2"
    by simp
  have tk: "take 2 (edge_direction_vectors ss v) = [Inr v1, Inr v2]"
    using t2 r1 r2 by simp
  from li have nz: "cross v1 v2 \<noteq> (0, 0, 0)" by (simp add: lin_indep_def)
  define raw where "raw = smult (1 / vnorm (cross v1 v2)) (cross v1 v2)"
  have raw: "normalize_vector (cross v1 v2) = Inr raw"
    using nz by (simp add: normalize_vector_cases raw_def)
  have uraw: "vnorm raw = 1" using raw by (rule normalize_vector_unit)
  define n where "n = (if vector_theta raw ?c > pi / 2 then smult (- 1) raw else raw)"
  have epn: "edge_plane_normal ss v = Inr n"
    by (simp add: edge_plane_normal_def tk raw conn n_def Let_def)
  have un: "vnorm n = 1" by (simp add: n_def vnorm_smult uraw)
  have ang: "vector_theta n ?c \<le> pi / 2"
  proof (cases "vector_theta raw ?c > pi / 2")
    case True
    then have "dot raw ?c < 0" by (rule vector_theta_gt_pi2)
    then have "0 \<le> dot n ?c" using True by (simp add: n_def dot_smult)
    then show ?thesis by (rule vector_theta_le_pi2)
  next
    case False
    then show ?thesis by (simp add: n_def)
  qed
  from raw epn un ang vector_theta_gt_pi2_iff [of raw ?c] vector_theta_range [of n ?c]
  show ?thesis
    unfolding n_def by blast
qed

lemma below_normal: "edge_plane_normal below_sites 0 = Inr (0, 0, - 1)"
proof -
  have "dot (0, 0, 1) (1, 0, - 1) < 0" by simp
  then have "vector_theta (0, 0, 1) (1, 0, - 1) > pi / 2"
    by (simp only: vector_theta_gt_pi2_iff)
  then show ?thesis
    by (simp add: below_sites_def new_site_def edge_direction_vectors_def edge_plane_normal_def
        normalize_vector_def vnorm_def)
qed

lemma origin_normal: "edge_plane_normal origin_sites 0 = Inr (0, 0, 1)"
  by (simp add: origin_sites_def new_site_def edge_direction_vectors_def edge_plane_normal_def
      normalize_vector_def vector_theta_def vnorm_def)

theorem edge_plane_normal_unit_outward_witness:
  "connected (below_sites 0) = [1, 2, 3] \<and>
   edge_direction_vectors below_sites 0 ! 0 = Inr (1, 0, 0) \<and>
   edge_direction_vectors below_sites 0 ! 1 = Inr (0, 1, 0) \<and>
   lin_indep (1, 0, 0) (0, 1, 0) \<and>
   normalize_vector (cross (1, 0, 0) (0, 1, 0)) = Inr (0, 0, 1) \<and>
   edge_plane_normal below_sites 0 = Inr (0, 0, - 1) \<and>
   vnorm (0, 0, - 1) = 1 \<and>
   vector_theta (0, 0, - 1) (coord (below_sites 1)) \<le> pi / 2 \<and>
   connected (origin_sites 0) = [1, 2, 3] \<and>
   edge_direction_vectors origin_sites 0 ! 0 = Inr (- 1, 0, 0) \<and>
   edge_direction_vectors origin_sites 0 ! 1 = Inr (0, - 1, 0) \<and>
   lin_indep (- 1, 0, 0) (0, - 1, 0) \<and>
   coord (origin_sites 1) = (0, 0, 0) \<and>
   edge_plane_normal origin_sites 0 = Inr (0, 0, 1) \<and>
   vector_theta (0, 0, 1) (coord (origin_sites 1)) \<le> pi / 2"
proof -
  have h1: "connected (below_sites 0) = 1 # 2 # 3 # []"
    by (simp add: below_sites_def new_site_def)
  have h2: "edge_direction_vectors below_sites 0 ! 0 = Inr (1, 0, 0)"
    and h3: "edge_direction_vectors below_sites 0 ! 1 = Inr (0, 1, 0)"
    by (simp_all add: below_sites_def new_site_def edge_direction_vectors_def
        normalize_vector_def vnorm_def)
  have h4: "lin_indep (1, 0, 0) (0, 1, 0)" by (simp add: lin_indep_def)
  have raw: "normalize_vector (cross (1, 0, 0) (0, 1, 0)) = Inr (0, 0, 1)"
    by (simp add: normalize_vector_def vnorm_def)
  from edge_plane_normal_unit_outward [of below_sites 0 1 2 3 "[]" "(1, 0, 0)" "(0, 1, 0)", OF h1 h2 h3 h4]
  obtain n where
    n: "edge_plane_normal below_sites 0 = Inr n" and u: "vnorm n = 1" and
    a: "vector_theta n (coord (below_sites 1)) \<le> pi / 2"
    by blast
  from n below_normal have nb: "n = (0, 0, - 1)" by simp
  have g1: "connected (origin_sites 0) = 1 # 2 # 3 # []"
    by (simp add: origin_sites_def new_site_def)
  have g2: "edge_direction_vectors origin_sites 0 ! 0 = Inr (- 1, 0, 0)"
    and g3: "edge_direction_vectors origin_sites 0 ! 1 = Inr (0, - 1, 0)"
    by (simp_all add: origin_sites_def new_site_def edge_direction_vectors_def
        normalize_vector_def vnorm_def)
  have g4: "lin_indep (- 1, 0, 0) (0, - 1, 0)" by (simp add: lin_indep_def)
  have g5: "coord (origin_sites 1) = (0, 0, 0)" by (simp add: origin_sites_def new_site_def)
  from edge_plane_normal_unit_outward [of origin_sites 0 1 2 3 "[]" "(- 1, 0, 0)" "(0, - 1, 0)", OF g1 g2 g3 g4]
  obtain m where
    m: "edge_plane_normal origin_sites 0 = Inr m" and
    b: "vector_theta m (coord (origin_sites 1)) \<le> pi / 2"
    by blast
  from m origin_normal have mo: "m = (0, 0, 1)" by simp
  from n u a h1 h2 h3 h4 raw g1 g2 g3 g4 g5 m b show ?thesis
    unfolding nb mo by simp
qed

end
